theory Spec2Isabelle
  imports Complex_Main
begin

section \<open>Conventions\<close>

text \<open>
  This development embeds the valuation engine of the DCF calculator
  (\<^verbatim>\<open>backend/valuation_models.py\<close>, \<^verbatim>\<open>backend/valuation_service.py\<close>,
  \<^verbatim>\<open>backend/data_provider.py\<close>) in HOL.

  Python's \<^verbatim>\<open>float\<close> is idealised as \<^typ>\<open>real\<close>: the rounding of each operation is
  not modelled, and neither are the values infinity and NaN, so every statement about a
  computed number is one of exact arithmetic and holds of the program up to rounding.
  The range of a float is kept where leaving it raises: a power and the conversion of an
  integer raise \<^verbatim>\<open>OverflowError\<close> when the result is too large for a float.
  Exceptions are values: a function that can raise returns \<open>error + 'a\<close>, with \<open>Inl\<close>
  carrying the exception. Division is written with \<open>py_div\<close>, which raises on a zero
  divisor as Python does, wherever the source does not guard the divisor itself.
\<close>

datatype error =
    ValueError string
  | TypeError
  | ZeroDivisionError
  | OverflowError
  | UpstreamError string

definition py_div :: "real \<Rightarrow> real \<Rightarrow> error + real" where
  "py_div a b = (if b = 0 then Inl ZeroDivisionError else Inr (a / b))"

text \<open>
  The largest float is \<open>2\<^sup>1\<^sup>0\<^sup>2\<^sup>4 - 2\<^sup>9\<^sup>7\<^sup>1\<close>. A number rounds to a float unless its
  magnitude reaches the midpoint between the largest float and \<open>2\<^sup>1\<^sup>0\<^sup>2\<^sup>4\<close>, from where
  on the nearest float is infinite.
\<close>

definition float_overflows :: "real \<Rightarrow> bool" where
  "float_overflows x = (2 ^ 1024 - 2 ^ 970 \<le> \<bar>x\<bar>)"

text \<open>
  \<^verbatim>\<open>x ** n\<close> for a float \<open>x\<close> and an integer \<open>n \<ge> 0\<close>: a result beyond the range of a
  float raises \<^verbatim>\<open>OverflowError\<close>.
\<close>

definition py_pow :: "real \<Rightarrow> nat \<Rightarrow> error + real" where
  "py_pow x n = (if float_overflows (x ^ n) then Inl OverflowError else Inr (x ^ n))"

text \<open>
  \<^verbatim>\<open>list(dict.fromkeys(xs))\<close>: the keys of a dict keep their first insertion, so the
  result lists every element once, in the order of first occurrence.
\<close>

definition fromkeys :: "'a list \<Rightarrow> 'a list" where
  "fromkeys xs = fold (\<lambda>x seen. if x \<in> set seen then seen else seen @ [x]) xs []"

subsection \<open>Format specifications\<close>

text \<open>
  The warnings are built with the format specifications \<^verbatim>\<open>.0%\<close> and \<^verbatim>\<open>.1f\<close>. Both
  print a fixed number of decimals, rounding to the nearest with ties to even, and a
  minus sign for a negative number. Here the exact number is rounded; Python rounds the
  float, so for a decimal that lies on a tie and has no float of its own (0.575, 4.35)
  its last digit can differ. Only the texts of warnings depend on these two functions.
\<close>

definition round_half_even :: "real \<Rightarrow> int" where
  "round_half_even x =
     (let f = \<lfloor>x\<rfloor>; d = x - of_int f
      in if d < 1 / 2 then f
         else if 1 / 2 < d then f + 1
         else if even f then f else f + 1)"

definition digit_char :: "nat \<Rightarrow> char" where
  "digit_char d = ''0123456789'' ! (d mod 10)"

fun digits :: "nat \<Rightarrow> string" where
  "digits n = (if n < 10 then [digit_char n] else digits (n div 10) @ [digit_char n])"

declare digits.simps [simp del]

definition format_pct0 :: "real \<Rightarrow> string" where
  "format_pct0 x =
     (if x < 0 then ''-'' else '''') @ digits (nat (round_half_even (\<bar>x\<bar> * 100))) @ ''%''"

definition format_f1 :: "real \<Rightarrow> string" where
  "format_f1 x =
     (let n = nat (round_half_even (\<bar>x\<bar> * 10))
      in (if x < 0 then ''-'' else '''') @ digits (n div 10) @ ''.'' @ [digit_char n])"

section \<open>Data model of the valuation engine\<close>

record ScenarioProfile =
  name :: string
  growth_rates :: "real list"
  terminal_multiple :: real
  probability :: real

record ScenarioValuation =
  sv_name :: string
  intrinsic_value :: real
  buy_price :: real
  upside :: real
  downside :: real
  margin_of_safety_pct :: real
  effective_growth_rates :: "real list"
  sv_terminal_multiple :: real
  cashflows :: "real list"
  discounted_cashflows :: "real list"
  terminal_value :: real
  discounted_terminal_value :: real
  sv_warnings :: "string list"

record AggregateValuation =
  scenario_results :: "ScenarioValuation list"
  weighted_intrinsic_value :: real
  margin_of_safety_buy_price :: real
  av_current_price :: real
  av_metadata :: "(string \<times> real) list"
  av_warnings :: "string list"

record DiscountedCashFlowModel =
  discount_rate :: real
  margin_of_safety :: real

text \<open>\<^verbatim>\<open>DiscountedCashFlowModel.__init__\<close>: both parameters are clamped.\<close>

definition DiscountedCashFlowModel_init :: "real \<Rightarrow> real \<Rightarrow> DiscountedCashFlowModel" where
  "DiscountedCashFlowModel_init dr mos =
     \<lparr>discount_rate = max dr 0, margin_of_safety = max (min mos (99 / 100)) 0\<rparr>"

section \<open>Evaluating one scenario\<close>

text \<open>
  The body of the \<^verbatim>\<open>for idx, rate in enumerate(scenario.growth_rates, start=1)\<close> loop
  of \<^verbatim>\<open>_evaluate_scenario\<close>. The loop state is the running \<^verbatim>\<open>value\<close> and the three
  lists \<^verbatim>\<open>cashflows\<close>, \<^verbatim>\<open>discounted\<close> and \<^verbatim>\<open>warnings\<close>.
\<close>

type_synonym loop_state = "real \<times> real list \<times> real list \<times> string list"

fun forecast_loop ::
  "DiscountedCashFlowModel \<Rightarrow> string \<Rightarrow> nat \<Rightarrow> real list \<Rightarrow> loop_state \<Rightarrow> error + loop_state"
where
  "forecast_loop self nm idx [] st = Inr st"
| "forecast_loop self nm idx (rate # rates) (val, cfs, disc, warns) =
     (let val' = val * (1 + rate);
          cfs' = cfs @ [val']
      in case py_pow (1 + discount_rate self) idx of
           Inl e \<Rightarrow> Inl e
         | Inr factor \<Rightarrow>
         case py_div val' factor of
           Inl e \<Rightarrow> Inl e
         | Inr discounted_value \<Rightarrow>
             (let disc' = disc @ [discounted_value];
                  warns1 = (if rate > 15 / 100
                     then warns @ [nm @ '': Growth rate '' @ format_pct0 rate
                                      @ '' exceeds conservative range.'']
                     else warns);
                  warns2 = (if rate < - (1 / 10)
                     then warns1 @ [nm @ '': Growth rate '' @ format_pct0 rate
                                       @ '' implies steep decline.'']
                     else warns1)
              in forecast_loop self nm (Suc idx) rates (val', cfs', disc', warns2)))"

definition evaluate_scenario ::
  "DiscountedCashFlowModel \<Rightarrow> real \<Rightarrow> real \<Rightarrow> ScenarioProfile \<Rightarrow> error + ScenarioValuation"
where
  "evaluate_scenario self base_cashflow_per_share cur_price scenario =
     (let years = length (growth_rates scenario)
      in if years = 0
         then Inl (ValueError ''Growth rates are required for at least one forecast year.'')
         else
           case forecast_loop self (name scenario) 1 (growth_rates scenario)
                  (base_cashflow_per_share, [], [], []) of
             Inl e \<Rightarrow> Inl e
           | Inr (val, cfs, disc, warns) \<Rightarrow>
               (let tv = last cfs * terminal_multiple scenario
                in case py_pow (1 + discount_rate self) years of
                     Inl e \<Rightarrow> Inl e
                   | Inr factor \<Rightarrow>
                   case py_div tv factor of
                     Inl e \<Rightarrow> Inl e
                   | Inr discounted_terminal \<Rightarrow>
                       (let iv = sum_list disc + discounted_terminal;
                            bp = iv * (1 - margin_of_safety self);
                            up = (if cur_price \<noteq> 0 then iv / cur_price - 1 else 0);
                            down = (if cur_price \<noteq> 0 then bp / cur_price - 1 else 0);
                            warns1 = (if terminal_multiple scenario > 20
                               then warns @ [name scenario @ '': Terminal multiple ''
                                       @ format_f1 (terminal_multiple scenario)
                                       @ '' is aggressive.'']
                               else warns);
                            warns2 = (if terminal_multiple scenario < 5
                               then warns1 @ [name scenario @ '': Terminal multiple ''
                                       @ format_f1 (terminal_multiple scenario)
                                       @ '' is unusually low.'']
                               else warns1)
                        in Inr \<lparr>sv_name = name scenario,
                                intrinsic_value = iv,
                                buy_price = bp,
                                upside = up,
                                downside = down,
                                margin_of_safety_pct = margin_of_safety self,
                                effective_growth_rates = growth_rates scenario,
                                sv_terminal_multiple = terminal_multiple scenario,
                                cashflows = cfs,
                                discounted_cashflows = disc,
                                terminal_value = tv,
                                discounted_terminal_value = discounted_terminal,
                                sv_warnings = fromkeys warns2\<rparr>)))"

section \<open>Evaluating a scenario set\<close>

text \<open>
  \<^verbatim>\<open>per_share = base_cashflow / shares_outstanding if shares_outstanding else base_cashflow\<close>:
  the guard is the truth value of a float, which is false for zero only.
\<close>

definition per_share :: "real \<Rightarrow> real \<Rightarrow> real" where
  "per_share base_cashflow shares_outstanding =
     (if shares_outstanding \<noteq> 0 then base_cashflow / shares_outstanding else base_cashflow)"

text \<open>
  The first loop of \<^verbatim>\<open>evaluate\<close>: each scenario is evaluated in order, its valuation
  appended to \<^verbatim>\<open>results\<close> and its warnings to \<^verbatim>\<open>warnings\<close>; the first exception ends it.
\<close>

fun evaluate_all ::
  "DiscountedCashFlowModel \<Rightarrow> real \<Rightarrow> real \<Rightarrow> ScenarioProfile list
     \<Rightarrow> ScenarioValuation list \<times> string list \<Rightarrow> error + (ScenarioValuation list \<times> string list)"
where
  "evaluate_all self ps cur_price [] acc = Inr acc"
| "evaluate_all self ps cur_price (scenario # rest) (results, warns) =
     (case evaluate_scenario self ps cur_price scenario of
        Inl e \<Rightarrow> Inl e
      | Inr valuation \<Rightarrow>
          evaluate_all self ps cur_price rest
            (results @ [valuation], warns @ sv_warnings valuation))"

text \<open>
  The weights of \<^verbatim>\<open>evaluate\<close>. Neither division can fail: \<^verbatim>\<open>1 / len(scenarios)\<close> is
  evaluated once per scenario, so never for an empty list, and the other divisor is
  positive. The sum is the exact one; the float sum of the program agrees with it up to
  rounding for probabilities of one sign, and can be far from it, relative to its size,
  where probabilities of both signs cancel.
\<close>

definition probabilities :: "ScenarioProfile list \<Rightarrow> real list" where
  "probabilities scenarios =
     (let total_probability = sum_list (map probability scenarios)
      in if total_probability \<le> 0
         then map (\<lambda>_. 1 / real (length scenarios)) scenarios
         else map (\<lambda>s. probability s / total_probability) scenarios)"

definition evaluate ::
  "DiscountedCashFlowModel \<Rightarrow> real \<Rightarrow> real \<Rightarrow> real \<Rightarrow> ScenarioProfile list
     \<Rightarrow> error + AggregateValuation"
where
  "evaluate self base_cashflow cur_price shares_outstanding scenarios =
     (case evaluate_all self (per_share base_cashflow shares_outstanding) cur_price
             scenarios ([], []) of
        Inl e \<Rightarrow> Inl e
      | Inr (results, warns) \<Rightarrow>
          (let weighted_intrinsic =
                 sum_list (map (\<lambda>(v, p). intrinsic_value v * p)
                             (zip results (probabilities scenarios)));
               bp = weighted_intrinsic * (1 - margin_of_safety self)
           in Inr \<lparr>scenario_results = results,
                   weighted_intrinsic_value = weighted_intrinsic,
                   margin_of_safety_buy_price = bp,
                   av_current_price = cur_price,
                   av_metadata = [(''discount_rate'', discount_rate self),
                                  (''margin_of_safety'', margin_of_safety self)],
                   av_warnings = fromkeys warns\<rparr>))"

text \<open>
  \<^verbatim>\<open>class DividendDiscountModel(DiscountedCashFlowModel): pass\<close>: the subclass adds and
  overrides nothing, so its constructor and its \<^verbatim>\<open>evaluate\<close> are the inherited ones.
\<close>

definition DividendDiscountModel_init :: "real \<Rightarrow> real \<Rightarrow> DiscountedCashFlowModel" where
  "DividendDiscountModel_init = DiscountedCashFlowModel_init"

definition DividendDiscountModel_evaluate ::
  "DiscountedCashFlowModel \<Rightarrow> real \<Rightarrow> real \<Rightarrow> real \<Rightarrow> ScenarioProfile list
     \<Rightarrow> error + AggregateValuation"
where
  "DividendDiscountModel_evaluate = evaluate"

section \<open>Growth-rate series of a request\<close>

text \<open>
  The scenarios of a request are decoded JSON, so \<^verbatim>\<open>_normalize_growth_series\<close> receives
  an arbitrary Python value.
\<close>

datatype pyval =
    PNone
  | PBool bool
  | PInt int
  | PFloat real
  | PStr string
  | PList "pyval list"
  | PDict "(string \<times> pyval) list"

text \<open>
  \<^verbatim>\<open>float(value)\<close>. How Python reads a number out of a string is not part of this
  program: \<open>parse\<close> gives the number a string denotes, or \<open>None\<close> where \<^verbatim>\<open>float\<close>
  raises \<^verbatim>\<open>ValueError\<close>. An integer too large for a float raises \<^verbatim>\<open>OverflowError\<close>.
  Every other value that is not a number raises \<^verbatim>\<open>TypeError\<close>.
\<close>

fun py_float :: "(string \<Rightarrow> real option) \<Rightarrow> pyval \<Rightarrow> error + real" where
  "py_float parse (PBool b) = Inr (if b then 1 else 0)"
| "py_float parse (PInt i) =
     (if float_overflows (of_int i) then Inl OverflowError else Inr (of_int i))"
| "py_float parse (PFloat x) = Inr x"
| "py_float parse (PStr s) =
     (case parse s of
        Some x \<Rightarrow> Inr x
      | None \<Rightarrow> Inl (ValueError ''could not convert string to float''))"
| "py_float parse v = Inl TypeError"

text \<open>
  The \<^verbatim>\<open>try\<close> block in the loop over \<^verbatim>\<open>raw\<close>. The handler catches \<^verbatim>\<open>TypeError\<close> and
  \<^verbatim>\<open>ValueError\<close> and gives \<^verbatim>\<open>0.0\<close>; any other exception leaves the function.
\<close>

definition clean_value :: "(string \<Rightarrow> real option) \<Rightarrow> pyval \<Rightarrow> error + real" where
  "clean_value parse v =
     (case py_float parse v of
        Inr x \<Rightarrow> Inr x
      | Inl TypeError \<Rightarrow> Inr 0
      | Inl (ValueError m) \<Rightarrow> Inr 0
      | Inl e \<Rightarrow> Inl e)"

text \<open>The loop \<^verbatim>\<open>for value in raw\<close>, appending to \<^verbatim>\<open>cleaned\<close>.\<close>

fun clean_loop ::
  "(string \<Rightarrow> real option) \<Rightarrow> pyval list \<Rightarrow> real list \<Rightarrow> error + real list"
where
  "clean_loop parse [] cleaned = Inr cleaned"
| "clean_loop parse (v # vs) cleaned =
     (case clean_value parse v of
        Inl e \<Rightarrow> Inl e
      | Inr x \<Rightarrow> clean_loop parse vs (cleaned @ [x]))"

text \<open>\<^verbatim>\<open>while len(cleaned) < years: cleaned.append(cleaned[-1])\<close>\<close>

function pad_loop :: "real list \<Rightarrow> int \<Rightarrow> real list" where
  "pad_loop cleaned years =
     (if int (length cleaned) < years then pad_loop (cleaned @ [last cleaned]) years
      else cleaned)"
  by pat_completeness auto
termination
  by (relation "measure (\<lambda>(cleaned, years). nat (years - int (length cleaned)))") auto

declare pad_loop.simps [simp del]

text \<open>
  The slice \<^verbatim>\<open>xs[:k]\<close>: the first \<open>k\<close> elements, and for a negative \<open>k\<close> all but the
  last \<open>-k\<close>.
\<close>

definition slice_to :: "'a list \<Rightarrow> int \<Rightarrow> 'a list" where
  "slice_to xs k = (if 0 \<le> k then take (nat k) xs else take (nat (int (length xs) + k)) xs)"

text \<open>
  \<^verbatim>\<open>_normalize_growth_series\<close>. The first three equations are the branch
  \<^verbatim>\<open>isinstance(raw, (int, float))\<close>, which a \<^verbatim>\<open>bool\<close> takes as well, being an \<^verbatim>\<open>int\<close>;
  its \<^verbatim>\<open>float(raw)\<close> is outside any \<^verbatim>\<open>try\<close>. The fourth is the branch of a non-empty
  list; every other value, the empty list among them, falls through to the list of zeros.
\<close>

fun normalize_growth_series ::
  "(string \<Rightarrow> real option) \<Rightarrow> pyval \<Rightarrow> int \<Rightarrow> error + real list"
where
  "normalize_growth_series parse (PBool b) years =
     (case py_float parse (PBool b) of
        Inl e \<Rightarrow> Inl e
      | Inr x \<Rightarrow> Inr (replicate (nat (max years 1)) x))"
| "normalize_growth_series parse (PInt i) years =
     (case py_float parse (PInt i) of
        Inl e \<Rightarrow> Inl e
      | Inr x \<Rightarrow> Inr (replicate (nat (max years 1)) x))"
| "normalize_growth_series parse (PFloat x) years =
     (case py_float parse (PFloat x) of
        Inl e \<Rightarrow> Inl e
      | Inr x \<Rightarrow> Inr (replicate (nat (max years 1)) x))"
| "normalize_growth_series parse (PList (v # vs)) years =
     (case clean_loop parse (v # vs) [] of
        Inl e \<Rightarrow> Inl e
      | Inr cleaned \<Rightarrow> Inr (slice_to (pad_loop cleaned years) years))"
| "normalize_growth_series parse raw years = Inr (replicate (nat (max years 1)) 0)"

text \<open>
  The words of the specification for one entry of a list: its number, and 0 for an entry
  that is not a number.
\<close>

definition spec_entry :: "(string \<Rightarrow> real option) \<Rightarrow> pyval \<Rightarrow> real" where
  "spec_entry parse v = (case py_float parse v of Inr x \<Rightarrow> x | Inl e \<Rightarrow> 0)"

section \<open>Financial statements\<close>

text \<open>
  A statement is a pandas table: one row per line item, labelled, and one column per
  period. A cell may be missing. The labels of the rows are taken to be distinct, as they
  are in the statements the provider returns.
\<close>

record DataFrame =
  df_columns :: "string list"
  df_index :: "(string \<times> real option list) list"

text \<open>\<^verbatim>\<open>df.empty\<close>: one of the two axes has length zero.\<close>

definition df_empty :: "DataFrame \<Rightarrow> bool" where
  "df_empty df = (df_index df = [] \<or> df_columns df = [])"

definition fillna0 :: "real option list \<Rightarrow> real list" where
  "fillna0 series = map (\<lambda>c. case c of None \<Rightarrow> 0 | Some x \<Rightarrow> x) series"

text \<open>\<^verbatim>\<open>_safe_df\<close>: no table is the empty table, and missing cells become 0.\<close>

definition safe_df :: "DataFrame option \<Rightarrow> DataFrame" where
  "safe_df d =
     (case d of
        None \<Rightarrow> \<lparr>df_columns = [], df_index = []\<rparr>
      | Some df \<Rightarrow> df\<lparr>df_index := map (\<lambda>(l, series). (l, map Some (fillna0 series)))
                                      (df_index df)\<rparr>)"

text \<open>The loop \<^verbatim>\<open>for label in row_labels\<close> of \<^verbatim>\<open>_row_values\<close>, with the line after it.\<close>

fun row_values_loop :: "DataFrame \<Rightarrow> string list \<Rightarrow> real list \<times> bool" where
  "row_values_loop df [] = (map (\<lambda>_. 0) (df_columns df), False)"
| "row_values_loop df (label # labels) =
     (case map_of (df_index df) label of
        Some series \<Rightarrow> (fillna0 series, True)
      | None \<Rightarrow> row_values_loop df labels)"

definition row_values :: "DataFrame \<Rightarrow> string list \<Rightarrow> real list \<times> bool" where
  "row_values df row_labels = (if df_empty df then ([], False) else row_values_loop df row_labels)"

definition operating_labels :: "string list" where
  "operating_labels =
     [''Operating Cash Flow'',
      ''Total Cash From Operating Activities'',
      ''Cash Flow From Continuing Operating Activities'']"

definition capex_labels :: "string list" where
  "capex_labels =
     [''Capital Expenditure'', ''Capital Expenditures'', ''Net PPE Purchase And Sale'']"

definition compute_fcf_series :: "DataFrame \<Rightarrow> real list" where
  "compute_fcf_series cashflow =
     (if df_empty cashflow then []
      else
        case row_values cashflow [''Free Cash Flow''] of
          (free_cash_flow, found) \<Rightarrow>
            if found \<and> list_ex (\<lambda>v. \<bar>v\<bar> > 1 / 1000000000) free_cash_flow
            then free_cash_flow
            else
              case row_values cashflow operating_labels of
                (operating, _) \<Rightarrow>
                  case row_values cashflow capex_labels of
                    (capex, _) \<Rightarrow> map (\<lambda>(op, cap). op - cap) (zip operating capex))"

text \<open>
  The model of a statement is faithful where the labels of the rows are distinct and every
  row has one cell per column.
\<close>

definition wf_df :: "DataFrame \<Rightarrow> bool" where
  "wf_df df =
     (distinct (map fst (df_index df)) \<and>
      list_all (\<lambda>row. length (snd row) = length (df_columns df)) (df_index df))"

text \<open>
  The words of the specification for the derived history: for each component the first
  candidate label that the row index contains is used, and a component none of whose
  labels is present counts as 0 in every period.
\<close>

definition spec_first_label :: "DataFrame \<Rightarrow> string list \<Rightarrow> string option" where
  "spec_first_label df labels = find (\<lambda>l. l \<in> set (map fst (df_index df))) labels"

definition spec_component :: "DataFrame \<Rightarrow> string list \<Rightarrow> nat \<Rightarrow> real" where
  "spec_component df labels i =
     (case spec_first_label df labels of
        None \<Rightarrow> 0
      | Some l \<Rightarrow>
          (case map_of (df_index df) l of
             None \<Rightarrow> 0
           | Some series \<Rightarrow> (case series ! i of None \<Rightarrow> 0 | Some x \<Rightarrow> x)))"


section \<open>The snapshot cache\<close>

datatype meta_value = MetaNum real | MetaStr string

record FinancialSnapshot =
  ticker :: string
  currency :: string
  financial_currency :: string
  shares_outstanding :: real
  current_price :: real
  fcf_history :: "real list"
  owner_earnings_history :: "real list"
  dividends_per_share_ttm :: real
  metadata :: "(string \<times> meta_value) list"
  warnings :: "string list"

text \<open>
  \<^verbatim>\<open>str.strip\<close> and \<^verbatim>\<open>str.upper\<close> on ASCII text: the white space of ASCII is the
  characters 9 to 13 and 28 to 32, and only the letters \<open>a\<close> to \<open>z\<close> have an upper case.
  Beyond ASCII Python strips further characters (U+0085, U+00A0) and maps further
  letters, which these two functions leave as they are.
\<close>

definition is_space :: "char \<Rightarrow> bool" where
  "is_space c = (let n = (of_char c :: nat) in (9 \<le> n \<and> n \<le> 13) \<or> (28 \<le> n \<and> n \<le> 32))"

definition py_strip :: "string \<Rightarrow> string" where
  "py_strip s = rev (dropWhile is_space (rev (dropWhile is_space s)))"

definition upper_char :: "char \<Rightarrow> char" where
  "upper_char c =
     (case map_of (zip ''abcdefghijklmnopqrstuvwxyz'' ''ABCDEFGHIJKLMNOPQRSTUVWXYZ'') c of
        Some u \<Rightarrow> u
      | None \<Rightarrow> c)"

definition py_upper :: "string \<Rightarrow> string" where
  "py_upper s = map upper_char s"

record cache_entry =
  payload :: FinancialSnapshot
  timestamp :: real

record YahooFinanceDataProvider =
  cache_ttl :: int
  cache :: "string \<rightharpoonup> cache_entry"

definition YahooFinanceDataProvider_init :: "int \<Rightarrow> YahooFinanceDataProvider" where
  "YahooFinanceDataProvider_init ttl = \<lparr>cache_ttl = ttl, cache = Map.empty\<rparr>"

text \<open>
  \<^verbatim>\<open>get_snapshot\<close>. Everything between the cache check and the construction of the
  snapshot reads the upstream service; \<open>upstream\<close> stands for it: from the state \<open>w\<close> of
  the outside world and the normalized ticker it gives the assembled snapshot, or the
  exception the service raised, and the world after the requests. The two readings of
  \<^verbatim>\<open>time.time()\<close> are \<open>now\<close>, at the cache check, and \<open>now_stored\<close>, when the entry
  is written. The result is the returned value, the provider after the call and the
  world after the call.
\<close>

definition get_snapshot ::
  "('w \<Rightarrow> string \<Rightarrow> (error + FinancialSnapshot) \<times> 'w) \<Rightarrow> real \<Rightarrow> real
     \<Rightarrow> YahooFinanceDataProvider \<times> 'w \<Rightarrow> string
     \<Rightarrow> (error + FinancialSnapshot) \<times> YahooFinanceDataProvider \<times> 'w"
where
  "get_snapshot upstream now now_stored st tk =
     (case st of (self, w) \<Rightarrow>
        let normalized = py_upper (py_strip tk)
        in if normalized = [] then (Inl (ValueError ''Ticker cannot be empty.''), self, w)
           else
             let fetch =
                   (case upstream w normalized of
                      (Inl e, w') \<Rightarrow> (Inl e, self, w')
                    | (Inr snapshot, w') \<Rightarrow>
                        (Inr snapshot,
                         self\<lparr>cache := (cache self)
                                 (normalized \<mapsto> \<lparr>payload = snapshot, timestamp = now_stored\<rparr>)\<rparr>,
                         w'))
             in case cache self normalized of
                  None \<Rightarrow> fetch
                | Some cached \<Rightarrow>
                    if now - timestamp cached < of_int (cache_ttl self)
                    then (Inr (payload cached), self, w)
                    else fetch)"

section \<open>Properties of the valuation engine\<close>

subsection \<open>Auxiliary facts\<close>

lemma discount_factor_in_range:
  assumes "0 \<le> discount_rate self" and "k \<le> n"
    and "\<not> float_overflows ((1 + discount_rate self) ^ n)"
  shows "\<not> float_overflows ((1 + discount_rate self) ^ k)"
proof -
  have "(1 + discount_rate self) ^ k \<le> (1 + discount_rate self) ^ n"
    using assms(1,2) by (intro power_increasing) auto
  moreover have "0 \<le> (1 + discount_rate self) ^ k"
    using assms(1) by simp
  ultimately show ?thesis
    using assms(3) by (simp add: float_overflows_def)
qed

lemma forecast_loop_returns:
  assumes "0 \<le> discount_rate self"
    and "\<not> float_overflows ((1 + discount_rate self) ^ n)"
    and "idx + length rates \<le> Suc n"
  shows "\<exists>st'. forecast_loop self nm idx rates st = Inr st'"
  using assms(3)
proof (induction rates arbitrary: idx st)
  case Nil
  show ?case by (metis forecast_loop.simps(1))
next
  case (Cons rate rates)
  obtain val cfs disc warns where st: "st = (val, cfs, disc, warns)"
    by (metis prod_cases4)
  from assms(1) have nz: "1 + discount_rate self \<noteq> 0" by linarith
  from Cons.prems have "idx \<le> n" and next_idx: "Suc idx + length rates \<le> Suc n" by simp_all
  then have ok: "\<not> float_overflows ((1 + discount_rate self) ^ idx)"
    using discount_factor_in_range [OF assms(1) _ assms(2)] by blast
  show ?case
    unfolding st using Cons.IH [OF next_idx] nz ok
    by (simp add: py_pow_def py_div_def Let_def)
qed

lemma forecast_loop_error:
  assumes "0 \<le> discount_rate self"
  shows "forecast_loop self nm idx rates st = Inl e \<Longrightarrow> e = OverflowError"
proof (induction rates arbitrary: idx st)
  case Nil
  then show ?case by simp
next
  case (Cons rate rates)
  obtain val cfs disc warns where st: "st = (val, cfs, disc, warns)"
    by (metis prod_cases4)
  from assms have nz: "1 + discount_rate self \<noteq> 0" by linarith
  show ?case
  proof (cases "float_overflows ((1 + discount_rate self) ^ idx)")
    case True
    with Cons.prems show ?thesis by (simp add: st py_pow_def)
  next
    case False
    with Cons.prems nz show ?thesis
      by (auto simp: st py_pow_def py_div_def Let_def dest: Cons.IH)
  qed
qed

lemma forecast_loop_in_range:
  assumes "0 \<le> discount_rate self"
  shows "forecast_loop self nm idx rates st = Inr st' \<Longrightarrow> rates \<noteq> [] \<Longrightarrow>
         \<not> float_overflows ((1 + discount_rate self) ^ (idx + length rates - 1))"
proof (induction rates arbitrary: idx st)
  case Nil
  then show ?case by simp
next
  case (Cons rate rates)
  obtain val cfs disc warns where st: "st = (val, cfs, disc, warns)"
    by (metis prod_cases4)
  from assms have nz: "1 + discount_rate self \<noteq> 0" by linarith
  from Cons.prems(1) have here: "\<not> float_overflows ((1 + discount_rate self) ^ idx)"
    by (auto simp: st py_pow_def split: if_splits)
  show ?case
  proof (cases "rates = []")
    case True
    with here show ?thesis by simp
  next
    case False
    from Cons.prems(1) here nz obtain st1 where
      "forecast_loop self nm (Suc idx) rates st1 = Inr st'"
      by (auto simp: st py_pow_def py_div_def Let_def)
    from Cons.IH [OF this False] show ?thesis by simp
  qed
qed



lemma evaluate_scenario_returns:
  assumes "0 \<le> discount_rate self" and "growth_rates scenario \<noteq> []"
    and "\<not> float_overflows ((1 + discount_rate self) ^ length (growth_rates scenario))"
  shows "\<exists>v. evaluate_scenario self ps cur_price scenario = Inr v"
proof -
  have "1 + length (growth_rates scenario) \<le> Suc (length (growth_rates scenario))" by simp
  from forecast_loop_returns [OF assms(1,3) this]
  obtain val cfs disc warns where
    "forecast_loop self (name scenario) 1 (growth_rates scenario) (ps, [], [], []) =
       Inr (val, cfs, disc, warns)"
    by (metis prod_cases4)
  moreover have "1 + discount_rate self \<noteq> 0"
    using assms(1) by linarith
  ultimately show ?thesis
    using assms(2,3) by (simp add: evaluate_scenario_def py_pow_def py_div_def Let_def)
qed

lemma evaluate_scenario_overflow:
  assumes "0 \<le> discount_rate self" and "growth_rates scenario \<noteq> []"
    and "float_overflows ((1 + discount_rate self) ^ length (growth_rates scenario))"
  shows "evaluate_scenario self ps cur_price scenario = Inl OverflowError"
proof (cases "forecast_loop self (name scenario) 1 (growth_rates scenario) (ps, [], [], [])")
  case (Inl e)
  with forecast_loop_error [OF assms(1) Inl] show ?thesis
    using assms(2) by (simp add: evaluate_scenario_def)
next
  case (Inr st')
  from forecast_loop_in_range [OF assms(1) Inr assms(2)] assms(3) show ?thesis by simp
qed

lemma evaluate_scenario_empty:
  "growth_rates scenario = [] \<Longrightarrow>
   evaluate_scenario self ps cur_price scenario =
     Inl (ValueError ''Growth rates are required for at least one forecast year.'')"
  by (simp add: evaluate_scenario_def)

lemma evaluate_scenario_buy_price:
  "evaluate_scenario self ps cur_price scenario = Inr v \<Longrightarrow>
   buy_price v = intrinsic_value v * (1 - margin_of_safety self)"
  by (auto simp: evaluate_scenario_def Let_def split: if_splits sum.splits prod.splits)

lemma evaluate_all_results:
  "evaluate_all self ps cur_price scs (results, warns) = Inr (results', warns') \<Longrightarrow>
   length results' = length results + length scs \<and>
   (\<forall>i < length results. results' ! i = results ! i) \<and>
   (\<forall>i < length scs.
      evaluate_scenario self ps cur_price (scs ! i) = Inr (results' ! (length results + i)))"
proof (induction scs arbitrary: results warns)
  case Nil
  then show ?case by simp
next
  case (Cons sc scs)
  from Cons.prems obtain v where
    v: "evaluate_scenario self ps cur_price sc = Inr v" and
    rest: "evaluate_all self ps cur_price scs (results @ [v], warns @ sv_warnings v) =
             Inr (results', warns')"
    by (auto split: sum.splits)
  from Cons.IH [OF rest] have
    len: "length results' = length (results @ [v]) + length scs" and
    old: "\<forall>i < length (results @ [v]). results' ! i = (results @ [v]) ! i" and
    new: "\<forall>i < length scs.
      evaluate_scenario self ps cur_price (scs ! i) = Inr (results' ! (length (results @ [v]) + i))"
    by blast+
  have "results' ! length results = v"
    using old by (metis length_append_singleton lessI nth_append_length)
  moreover have "\<forall>i < length results. results' ! i = results ! i"
    using old by (simp add: nth_append)
  moreover have "\<forall>i < length (sc # scs).
      evaluate_scenario self ps cur_price ((sc # scs) ! i) = Inr (results' ! (length results + i))"
  proof (intro allI impI)
    fix i assume "i < length (sc # scs)"
    show "evaluate_scenario self ps cur_price ((sc # scs) ! i) = Inr (results' ! (length results + i))"
    proof (cases i)
      case 0
      with v \<open>results' ! length results = v\<close> show ?thesis by simp
    next
      case (Suc j)
      with \<open>i < length (sc # scs)\<close> have "j < length scs" by simp
      with new Suc show ?thesis by simp
    qed
  qed
  ultimately show ?case using len by simp
qed

lemma evaluate_all_error:
  assumes "0 \<le> discount_rate self"
  shows "evaluate_all self ps cur_price scs acc = Inl e \<Longrightarrow>
         e = ValueError ''Growth rates are required for at least one forecast year.''
           \<and> (\<exists>sc \<in> set scs. growth_rates sc = [])
         \<or> e = OverflowError"
proof (induction scs arbitrary: acc)
  case Nil
  then show ?case by simp
next
  case (Cons sc scs)
  obtain results warns where acc: "acc = (results, warns)" by (cases acc)
  show ?case
  proof (cases "evaluate_scenario self ps cur_price sc")
    case (Inl e')
    with Cons.prems have e: "e = e'" by (simp add: acc)
    show ?thesis
    proof (cases "growth_rates sc = []")
      case True
      with Inl e show ?thesis by (simp add: evaluate_scenario_empty)
    next
      case False
      show ?thesis
      proof (cases "float_overflows ((1 + discount_rate self) ^ length (growth_rates sc))")
        case True
        from evaluate_scenario_overflow [OF assms False True, of ps cur_price] Inl e
        show ?thesis by simp
      next
        case ok: False
        from evaluate_scenario_returns [OF assms False ok, of ps cur_price] Inl
        show ?thesis by simp
      qed
    qed
  next
    case (Inr v)
    with Cons.prems have "evaluate_all self ps cur_price scs
        (results @ [v], warns @ sv_warnings v) = Inl e"
      by (simp add: acc)
    from Cons.IH [OF this] show ?thesis by auto
  qed
qed

lemma evaluate_all_raises:
  "\<exists>sc \<in> set scs. growth_rates sc = [] \<Longrightarrow>
   \<exists>e. evaluate_all self ps cur_price scs acc = Inl e"
proof (induction scs arbitrary: acc)
  case Nil
  then show ?case by simp
next
  case (Cons sc scs)
  obtain results warns where acc: "acc = (results, warns)" by (cases acc)
  show ?case
  proof (cases "evaluate_scenario self ps cur_price sc")
    case (Inl e')
    then show ?thesis by (simp add: acc)
  next
    case (Inr v)
    then have "growth_rates sc \<noteq> []"
      using evaluate_scenario_empty [of sc self ps cur_price] by auto
    with Cons.prems have "\<exists>sc \<in> set scs. growth_rates sc = []" by auto
    from Cons.IH [OF this] Inr show ?thesis by (simp add: acc)
  qed
qed

lemma evaluate_all_fails:
  "\<exists>sc \<in> set scs. growth_rates sc = [] \<Longrightarrow> 0 \<le> discount_rate self \<Longrightarrow>
   \<forall>sc \<in> set scs. \<not> float_overflows ((1 + discount_rate self) ^ length (growth_rates sc)) \<Longrightarrow>
   evaluate_all self ps cur_price scs acc = Inl (ValueError ''Growth rates are required for at least one forecast year.'')"
proof (induction scs arbitrary: acc)
  case Nil
  then show ?case by simp
next
  case (Cons sc scs)
  obtain results warns where acc: "acc = (results, warns)" by (cases acc)
  show ?case
  proof (cases "growth_rates sc = []")
    case True
    then show ?thesis by (simp add: acc evaluate_scenario_empty)
  next
    case False
    with Cons.prems have ex: "\<exists>sc \<in> set scs. growth_rates sc = []" by auto
    from Cons.prems have ok: "\<not> float_overflows ((1 + discount_rate self) ^ length (growth_rates sc))"
      and oks: "\<forall>sc \<in> set scs.
          \<not> float_overflows ((1 + discount_rate self) ^ length (growth_rates sc))"
      by simp_all
    from evaluate_scenario_returns [OF Cons.prems(2) False ok] obtain v where
      "evaluate_scenario self ps cur_price sc = Inr v" by blast
    then show ?thesis using Cons.IH [OF ex Cons.prems(2) oks] by (simp add: acc)
  qed
qed

lemma evaluate_all_returns:
  "\<forall>sc \<in> set scs. growth_rates sc \<noteq> [] \<Longrightarrow> 0 \<le> discount_rate self \<Longrightarrow>
   \<forall>sc \<in> set scs. \<not> float_overflows ((1 + discount_rate self) ^ length (growth_rates sc)) \<Longrightarrow>
   \<exists>r. evaluate_all self ps cur_price scs acc = Inr r"
proof (induction scs arbitrary: acc)
  case Nil
  then show ?case by simp
next
  case (Cons sc scs)
  obtain results warns where acc: "acc = (results, warns)" by (cases acc)
  from Cons.prems have ne: "growth_rates sc \<noteq> []" and rest: "\<forall>sc \<in> set scs. growth_rates sc \<noteq> []"
    and ok: "\<not> float_overflows ((1 + discount_rate self) ^ length (growth_rates sc))"
    and oks: "\<forall>sc \<in> set scs.
        \<not> float_overflows ((1 + discount_rate self) ^ length (growth_rates sc))"
    by auto
  from evaluate_scenario_returns [OF Cons.prems(2) ne ok] obtain v where
    "evaluate_scenario self ps cur_price sc = Inr v" by blast
  then show ?case using Cons.IH [OF rest Cons.prems(2) oks] by (simp add: acc)
qed

lemma evaluate_buy_price:
  "evaluate self b cur_price sh scs = Inr a \<Longrightarrow>
   margin_of_safety_buy_price a = weighted_intrinsic_value a * (1 - margin_of_safety self)"
  by (auto simp: evaluate_def Let_def split: sum.splits prod.splits)

lemma evaluate_returns:
  assumes "0 \<le> discount_rate self" and "\<forall>sc \<in> set scs. growth_rates sc \<noteq> []"
    and "\<forall>sc \<in> set scs.
           \<not> float_overflows ((1 + discount_rate self) ^ length (growth_rates sc))"
  shows "\<exists>a. evaluate self b cur_price sh scs = Inr a"
proof -
  from evaluate_all_returns [OF assms(2) assms(1) assms(3)] obtain results warns where
    "evaluate_all self (per_share b sh) cur_price scs ([], []) = Inr (results, warns)"
    by (metis surj_pair)
  then show ?thesis by (simp add: evaluate_def Let_def)
qed

lemma evaluate_error_iff:
  "(evaluate self b cur_price sh scs = Inl e)
     = (evaluate_all self (per_share b sh) cur_price scs ([], []) = Inl e)"
  by (auto simp: evaluate_def Let_def split: sum.splits prod.splits)






subsection \<open>Closed form of a constant-growth scenario\<close>



subsection \<open>Margin of safety\<close>

text \<open>
  Claim C2, as stated, fails where the intrinsic value is negative: a base cash flow of
  \<open>-10\<close> with a margin of one half gives an intrinsic value of \<open>-110\<close> and a buy
  price of \<open>-55\<close>, which is above it.
\<close>

theorem buy_price_above_negative_intrinsic_value:
  "margin_of_safety (DiscountedCashFlowModel_init 0 (1 / 2)) = 1 / 2
   \<and> map_sum id intrinsic_value
       (evaluate_scenario (DiscountedCashFlowModel_init 0 (1 / 2)) (- 10) 0
          \<lparr>name = ''S'', growth_rates = [0], terminal_multiple = 10, probability = 1\<rparr>)
       = Inr (- 110)
   \<and> map_sum id buy_price
       (evaluate_scenario (DiscountedCashFlowModel_init 0 (1 / 2)) (- 10) 0
          \<lparr>name = ''S'', growth_rates = [0], terminal_multiple = 10, probability = 1\<rparr>)
       = Inr (- 55)
   \<and> \<not> (- 55 \<le> (- 110 :: real))"
  by (simp add: evaluate_scenario_def DiscountedCashFlowModel_init_def py_pow_def float_overflows_def
      py_div_def Let_def)

text \<open>
  Claim C2, amended. For a margin of safety that is not negative, the buy price of a
  scenario is its intrinsic value times one minus the margin; it is at most the intrinsic
  value whenever the intrinsic value is not negative, and equal to it when the margin
  is 0. The same holds of the aggregate buy price and the weighted intrinsic value of
  \<^verbatim>\<open>evaluate\<close>.
\<close>

theorem buy_price_below_intrinsic_value:
  assumes "0 \<le> margin_of_safety self"
  shows "(evaluate_scenario self ps cur_price scenario = Inr v \<longrightarrow>
            buy_price v = intrinsic_value v * (1 - margin_of_safety self) \<and>
            (0 \<le> intrinsic_value v \<longrightarrow> buy_price v \<le> intrinsic_value v) \<and>
            (margin_of_safety self = 0 \<longrightarrow> buy_price v = intrinsic_value v)) \<and>
         (evaluate self b cur_price sh scs = Inr a \<longrightarrow>
            margin_of_safety_buy_price a = weighted_intrinsic_value a * (1 - margin_of_safety self) \<and>
            (0 \<le> weighted_intrinsic_value a \<longrightarrow>
               margin_of_safety_buy_price a \<le> weighted_intrinsic_value a) \<and>
            (margin_of_safety self = 0 \<longrightarrow>
               margin_of_safety_buy_price a = weighted_intrinsic_value a))"
proof -
  have le: "x * (1 - margin_of_safety self) \<le> x" if "0 \<le> x" for x :: real
  proof -
    have "x * (1 - margin_of_safety self) \<le> x * 1"
      using assms that by (intro mult_left_mono) auto
    then show ?thesis by simp
  qed
  show ?thesis
    using le by (auto dest!: evaluate_scenario_buy_price evaluate_buy_price)
qed

theorem buy_price_below_intrinsic_value_witness:
  "0 \<le> margin_of_safety (DiscountedCashFlowModel_init (1 / 10) (3 / 10))
   \<and> (\<exists>v. evaluate_scenario (DiscountedCashFlowModel_init (1 / 10) (3 / 10)) 10 100
              \<lparr>name = ''Base'', growth_rates = [1 / 20], terminal_multiple = 12,
               probability = 1\<rparr> = Inr v
            \<and> 0 \<le> intrinsic_value v \<and> buy_price v \<le> intrinsic_value v)
   \<and> (\<exists>a. evaluate (DiscountedCashFlowModel_init (1 / 10) (3 / 10)) 20 100 2
              [\<lparr>name = ''Base'', growth_rates = [1 / 20], terminal_multiple = 12,
                probability = 1\<rparr>] = Inr a
            \<and> 0 \<le> weighted_intrinsic_value a
            \<and> margin_of_safety_buy_price a \<le> weighted_intrinsic_value a)
   \<and> margin_of_safety (DiscountedCashFlowModel_init (1 / 10) 0) = 0
   \<and> (\<exists>v. evaluate_scenario (DiscountedCashFlowModel_init (1 / 10) 0) 10 100
              \<lparr>name = ''Base'', growth_rates = [1 / 20], terminal_multiple = 12,
               probability = 1\<rparr> = Inr v
            \<and> buy_price v = intrinsic_value v)
   \<and> (\<exists>a. evaluate (DiscountedCashFlowModel_init (1 / 10) 0) 20 100 2
              [\<lparr>name = ''Base'', growth_rates = [1 / 20], terminal_multiple = 12,
                probability = 1\<rparr>] = Inr a
            \<and> margin_of_safety_buy_price a = weighted_intrinsic_value a)"
proof -
  let ?M = "DiscountedCashFlowModel_init (1 / 10) (3 / 10)"
  let ?Z = "DiscountedCashFlowModel_init (1 / 10) 0"
  let ?sc = "\<lparr>name = ''Base'', growth_rates = [1 / 20], terminal_multiple = 12,
               probability = 1\<rparr>"
  have m: "0 \<le> margin_of_safety ?M" and z: "0 \<le> margin_of_safety ?Z"
    and z0: "margin_of_safety ?Z = 0"
    by (simp_all add: DiscountedCashFlowModel_init_def)
  have dr: "0 \<le> discount_rate ?M" "0 \<le> discount_rate ?Z"
    by (simp_all add: DiscountedCashFlowModel_init_def)
  have ne: "growth_rates ?sc \<noteq> []" "\<forall>sc \<in> set [?sc]. growth_rates sc \<noteq> []" by simp_all
  have ok: "\<not> float_overflows ((1 + discount_rate ?M) ^ length (growth_rates ?sc))"
    "\<not> float_overflows ((1 + discount_rate ?Z) ^ length (growth_rates ?sc))"
    by (simp_all add: DiscountedCashFlowModel_init_def float_overflows_def)
  then have oks: "\<forall>sc \<in> set [?sc].
        \<not> float_overflows ((1 + discount_rate ?M) ^ length (growth_rates sc))"
    "\<forall>sc \<in> set [?sc].
        \<not> float_overflows ((1 + discount_rate ?Z) ^ length (growth_rates sc))"
    by simp_all
  obtain v where v: "evaluate_scenario ?M 10 100 ?sc = Inr v"
    using evaluate_scenario_returns [OF dr(1) ne(1) ok(1)] by blast
  have iv: "intrinsic_value v = 1365 / 11"
    using v by (auto simp: evaluate_scenario_def DiscountedCashFlowModel_init_def py_pow_def float_overflows_def py_div_def Let_def)
  obtain a where a: "evaluate ?M 20 100 2 [?sc] = Inr a"
    using evaluate_returns [OF dr(1) ne(2) oks(1)] by blast
  have wv: "weighted_intrinsic_value a = 1365 / 11"
    using a by (auto simp: evaluate_def per_share_def probabilities_def evaluate_scenario_def
        DiscountedCashFlowModel_init_def py_pow_def float_overflows_def py_div_def Let_def)
  obtain v' where v': "evaluate_scenario ?Z 10 100 ?sc = Inr v'"
    using evaluate_scenario_returns [OF dr(2) ne(1) ok(2)] by blast
  obtain a' where a': "evaluate ?Z 20 100 2 [?sc] = Inr a'"
    using evaluate_returns [OF dr(2) ne(2) oks(2)] by blast
  from buy_price_below_intrinsic_value [OF m, of 10 100 ?sc v 20 2 "[?sc]" a] v a iv wv
  have "buy_price v \<le> intrinsic_value v"
    and "margin_of_safety_buy_price a \<le> weighted_intrinsic_value a"
    by simp_all
  moreover
  from buy_price_below_intrinsic_value [OF z, of 10 100 ?sc v' 20 2 "[?sc]" a'] v' a' z0
  have "buy_price v' = intrinsic_value v'"
    and "margin_of_safety_buy_price a' = weighted_intrinsic_value a'"
    by simp_all
  ultimately show ?thesis
    using m z0 v a v' a' iv wv by auto
qed

subsection \<open>Probability weights\<close>




subsection \<open>Per-share base\<close>

text \<open>
  Claim C4, as stated, fails for a negative number of shares: the guard is the truth
  value of the number, so \<open>-2\<close> shares divide the base.
\<close>

theorem per_share_negative_shares:
  "per_share 10 (- 2) = - 5 \<and> per_share 10 (- 2) \<noteq> 10"
  by (simp add: per_share_def)

text \<open>
  Claim C4, amended. The per-share base is the base cash flow divided by the shares
  outstanding whenever these are not 0, and the base cash flow itself when they are 0;
  every scenario of a call to \<^verbatim>\<open>evaluate\<close> is evaluated with this base.
\<close>

theorem per_share_divides_when_nonzero:
  "(sh \<noteq> 0 \<longrightarrow> per_share b sh = b / sh)
   \<and> (sh = 0 \<longrightarrow> per_share b sh = b)
   \<and> (evaluate self b cur_price sh scs = Inr a \<longrightarrow>
        length (scenario_results a) = length scs \<and>
        (\<forall>i < length scs.
           evaluate_scenario self (per_share b sh) cur_price (scs ! i)
             = Inr (scenario_results a ! i)))"
proof -
  have "length (scenario_results a) = length scs \<and>
        (\<forall>i < length scs.
           evaluate_scenario self (per_share b sh) cur_price (scs ! i)
             = Inr (scenario_results a ! i))"
    if "evaluate self b cur_price sh scs = Inr a"
  proof -
    from that obtain results warns where
      all: "evaluate_all self (per_share b sh) cur_price scs ([], []) = Inr (results, warns)"
      and a: "scenario_results a = results"
      by (auto simp: evaluate_def Let_def split: sum.splits prod.splits)
    from evaluate_all_results [OF all] show ?thesis
      unfolding a by simp
  qed
  then show ?thesis by (simp add: per_share_def)
qed

theorem per_share_divides_when_nonzero_witness:
  "(2::real) \<noteq> 0 \<and> per_share 20 2 = 10
   \<and> per_share 20 0 = 20
   \<and> (\<exists>a. evaluate (DiscountedCashFlowModel_init (1 / 10) (3 / 10)) 20 100 2
              [\<lparr>name = ''Base'', growth_rates = [1 / 20], terminal_multiple = 12,
                probability = 1\<rparr>] = Inr a
          \<and> (0::nat) < length [\<lparr>name = ''Base'', growth_rates = [1 / 20],
                  terminal_multiple = 12, probability = 1\<rparr>]
          \<and> length (scenario_results a) = 1
          \<and> evaluate_scenario (DiscountedCashFlowModel_init (1 / 10) (3 / 10)) 10 100
               \<lparr>name = ''Base'', growth_rates = [1 / 20], terminal_multiple = 12,
                probability = 1\<rparr> = Inr (scenario_results a ! 0))"
proof -
  let ?M = "DiscountedCashFlowModel_init (1 / 10) (3 / 10)"
  let ?sc = "\<lparr>name = ''Base'', growth_rates = [1 / 20], terminal_multiple = 12,
               probability = 1\<rparr>"
  have dr: "0 \<le> discount_rate ?M" by (simp add: DiscountedCashFlowModel_init_def)
  have ne: "\<forall>sc \<in> set [?sc]. growth_rates sc \<noteq> []" by simp
  have ok: "\<forall>sc \<in> set [?sc].
      \<not> float_overflows ((1 + discount_rate ?M) ^ length (growth_rates sc))"
    by (simp add: DiscountedCashFlowModel_init_def float_overflows_def)
  obtain a where a: "evaluate ?M 20 100 2 [?sc] = Inr a"
    using evaluate_returns [OF dr ne ok] by blast
  note inst = per_share_divides_when_nonzero [of 2 20 ?M 100 "[?sc]" a]
  from inst have p2: "per_share 20 2 = 10" by simp
  from per_share_divides_when_nonzero [of 0 20 ?M 100 "[?sc]" a] have p0: "per_share 20 0 = 20" by simp
  from inst a have res: "length (scenario_results a) = length [?sc]" by blast
  from inst a have each: "\<forall>i < length [?sc].
      evaluate_scenario ?M (per_share 20 2) 100 ([?sc] ! i) = Inr (scenario_results a ! i)"
    by blast
  then have "evaluate_scenario ?M (per_share 20 2) 100 ?sc = Inr (scenario_results a ! 0)"
    by simp
  then have "evaluate_scenario ?M 10 100 ?sc = Inr (scenario_results a ! 0)"
    unfolding p2 .
  with p2 p0 res a show ?thesis by auto
qed

subsection \<open>Failure of an evaluation\<close>

text \<open>
  Claim C6, as stated, fails in its "if": the scenarios are evaluated in order, and a
  scenario whose discount factor leaves the range of a float raises \<^verbatim>\<open>OverflowError\<close>
  before a later scenario without growth rates is reached. With a discount rate of
  \<open>2\<^sup>6\<^sup>0\<^sup>0\<close> a scenario of two years does so.
\<close>

theorem evaluate_overflow_before_empty_growth_rates:
  "evaluate (DiscountedCashFlowModel_init (2 ^ 600) (3 / 10)) 20 100 2
     [\<lparr>name = ''Long'', growth_rates = [0, 0], terminal_multiple = 12, probability = 1\<rparr>,
      \<lparr>name = ''None'', growth_rates = [], terminal_multiple = 12, probability = 1\<rparr>]
     = Inl OverflowError"
proof -
  let ?M = "DiscountedCashFlowModel_init (2 ^ 600) (3 / 10)"
  let ?long = "\<lparr>name = ''Long'', growth_rates = [0, 0], terminal_multiple = 12,
                 probability = 1\<rparr>"
  have dr: "0 \<le> discount_rate ?M" by (simp add: DiscountedCashFlowModel_init_def)
  have ne: "growth_rates ?long \<noteq> []" by simp
  have over: "float_overflows ((1 + discount_rate ?M) ^ length (growth_rates ?long))"
    by (simp add: DiscountedCashFlowModel_init_def float_overflows_def)
  from evaluate_scenario_overflow [OF dr ne over] show ?thesis
    by (simp add: evaluate_def)
qed

text \<open>
  Claim C6, amended. For a model whose discount rate \<open>r\<close> is not negative (as the
  constructor leaves it): \<^verbatim>\<open>evaluate\<close> raises a \<^verbatim>\<open>ValueError\<close> only if some scenario has
  no growth rates, and its message is the one that asks for at least one forecast year.
  If some scenario has no growth rates, \<^verbatim>\<open>evaluate\<close> returns no valuation: it raises that
  \<^verbatim>\<open>ValueError\<close> or \<^verbatim>\<open>OverflowError\<close>, and it is the \<^verbatim>\<open>ValueError\<close> when the discount
  factor \<open>(1+r)^N\<close> of every scenario, \<open>N\<close> its number of years, is within the range of a
  float. If every scenario has growth rates and all these factors are within the range,
  an aggregate valuation is returned.
\<close>

theorem evaluate_fails_iff_empty_growth_rates:
  assumes "0 \<le> discount_rate self"
  shows "(evaluate self b cur_price sh scs = Inl (ValueError m) \<longrightarrow>
            m = ''Growth rates are required for at least one forecast year.''
            \<and> (\<exists>sc \<in> set scs. growth_rates sc = []))
       \<and> ((\<exists>sc \<in> set scs. growth_rates sc = []) \<longrightarrow>
            evaluate self b cur_price sh scs = Inl (ValueError ''Growth rates are required for at least one forecast year.'')
            \<or> evaluate self b cur_price sh scs = Inl OverflowError)
       \<and> ((\<exists>sc \<in> set scs. growth_rates sc = [])
            \<and> (\<forall>sc \<in> set scs.
                  \<not> float_overflows ((1 + discount_rate self) ^ length (growth_rates sc))) \<longrightarrow>
            evaluate self b cur_price sh scs = Inl (ValueError ''Growth rates are required for at least one forecast year.''))
       \<and> ((\<forall>sc \<in> set scs. growth_rates sc \<noteq> [])
            \<and> (\<forall>sc \<in> set scs.
                  \<not> float_overflows ((1 + discount_rate self) ^ length (growth_rates sc))) \<longrightarrow>
            (\<exists>a. evaluate self b cur_price sh scs = Inr a))"
proof -
  let ?ev = "evaluate self b cur_price sh scs"
  let ?all = "evaluate_all self (per_share b sh) cur_price scs ([], [])"
  have only_if: "m = ''Growth rates are required for at least one forecast year.'' \<and> (\<exists>sc \<in> set scs. growth_rates sc = [])"
    if "?ev = Inl (ValueError m)"
  proof -
    from that have "?all = Inl (ValueError m)" by (simp add: evaluate_error_iff)
    from evaluate_all_error [OF assms this] show ?thesis by simp
  qed
  have raises: "?ev = Inl (ValueError ''Growth rates are required for at least one forecast year.'') \<or> ?ev = Inl OverflowError"
    if "\<exists>sc \<in> set scs. growth_rates sc = []"
  proof -
    from evaluate_all_raises [OF that] obtain e where e: "?all = Inl e" by blast
    from evaluate_all_error [OF assms e] e show ?thesis
      by (auto simp: evaluate_error_iff)
  qed
  have fails: "?ev = Inl (ValueError ''Growth rates are required for at least one forecast year.'')"
    if "\<exists>sc \<in> set scs. growth_rates sc = []"
      "\<forall>sc \<in> set scs. \<not> float_overflows ((1 + discount_rate self) ^ length (growth_rates sc))"
    using evaluate_all_fails [OF that(1) assms that(2)] by (simp add: evaluate_error_iff)
  have returns: "\<exists>a. ?ev = Inr a"
    if "\<forall>sc \<in> set scs. growth_rates sc \<noteq> []"
      "\<forall>sc \<in> set scs. \<not> float_overflows ((1 + discount_rate self) ^ length (growth_rates sc))"
    using evaluate_returns [OF assms that] .
  show ?thesis using only_if raises fails returns by blast
qed

theorem evaluate_fails_iff_empty_growth_rates_witness:
  "0 \<le> discount_rate (DiscountedCashFlowModel_init (1 / 10) (3 / 10))
   \<and> evaluate (DiscountedCashFlowModel_init (1 / 10) (3 / 10)) 20 100 2
        [\<lparr>name = ''Base'', growth_rates = [1 / 20], terminal_multiple = 12, probability = 1\<rparr>,
         \<lparr>name = ''None'', growth_rates = [], terminal_multiple = 12, probability = 1\<rparr>]
       = Inl (ValueError ''Growth rates are required for at least one forecast year.'')
   \<and> (\<exists>a. evaluate (DiscountedCashFlowModel_init (1 / 10) (3 / 10)) 20 100 2
        [\<lparr>name = ''Base'', growth_rates = [1 / 20], terminal_multiple = 12, probability = 1\<rparr>]
       = Inr a)"
proof -
  let ?M = "DiscountedCashFlowModel_init (1 / 10) (3 / 10)"
  let ?sc = "\<lparr>name = ''Base'', growth_rates = [1 / 20], terminal_multiple = 12,
               probability = 1\<rparr>"
  let ?em = "\<lparr>name = ''None'', growth_rates = [], terminal_multiple = 12,
               probability = 1\<rparr>"
  have dr: "0 \<le> discount_rate ?M" by (simp add: DiscountedCashFlowModel_init_def)
  have ex: "\<exists>sc \<in> set [?sc, ?em]. growth_rates sc = []" by simp
  have ok2: "\<forall>sc \<in> set [?sc, ?em].
      \<not> float_overflows ((1 + discount_rate ?M) ^ length (growth_rates sc))"
    by (simp add: DiscountedCashFlowModel_init_def float_overflows_def)
  from evaluate_fails_iff_empty_growth_rates [OF dr, of 20 100 2 "[?sc, ?em]"] ex ok2
  have fails: "evaluate ?M 20 100 2 [?sc, ?em] = Inl (ValueError ''Growth rates are required for at least one forecast year.'')"
    by blast
  have ne: "\<forall>sc \<in> set [?sc]. growth_rates sc \<noteq> []" by simp
  have ok1: "\<forall>sc \<in> set [?sc].
      \<not> float_overflows ((1 + discount_rate ?M) ^ length (growth_rates sc))"
    by (simp add: DiscountedCashFlowModel_init_def float_overflows_def)
  from evaluate_fails_iff_empty_growth_rates [OF dr, of 20 100 2 "[?sc]"] ne ok1
  have "\<exists>a. evaluate ?M 20 100 2 [?sc] = Inr a"
    by blast
  with dr fails show ?thesis by blast
qed

subsection \<open>Evaluation without scenarios and the dividend discount model\<close>

text \<open>
  Claim C10. With an empty list of scenarios \<^verbatim>\<open>evaluate\<close> raises nothing and returns an
  aggregate valuation without scenario results and without warnings, whose weighted
  intrinsic value and buy price are both 0; the list of weights is empty, so the uniform
  weight \<open>1 / len(scenarios)\<close> is never computed.
\<close>

theorem evaluate_no_scenarios:
  "evaluate self b cur_price sh [] =
     Inr \<lparr>scenario_results = [], weighted_intrinsic_value = 0,
          margin_of_safety_buy_price = 0, av_current_price = cur_price,
          av_metadata = [(''discount_rate'', discount_rate self),
                         (''margin_of_safety'', margin_of_safety self)],
          av_warnings = []\<rparr>
   \<and> probabilities [] = []"
  by (simp add: evaluate_def probabilities_def fromkeys_def)

text \<open>
  Claim C9. \<^verbatim>\<open>DividendDiscountModel.evaluate\<close> returns on all inputs what
  \<^verbatim>\<open>DiscountedCashFlowModel.evaluate\<close> returns on them; with one share outstanding, as
  the service passes for the dividend model, the per-share base is the base itself.
\<close>

theorem dividend_discount_model_is_dcf:
  "DividendDiscountModel_evaluate (DividendDiscountModel_init dr mos) b cur_price sh scs =
     evaluate (DiscountedCashFlowModel_init dr mos) b cur_price sh scs
   \<and> per_share b 1 = b"
  by (simp add: DividendDiscountModel_evaluate_def DividendDiscountModel_init_def per_share_def)

section \<open>Properties of the growth-rate series\<close>

lemma pad_loop_eq:
  "cleaned \<noteq> [] \<Longrightarrow>
   pad_loop cleaned years
     = cleaned @ replicate (nat (years - int (length cleaned))) (last cleaned)"
proof (induction cleaned years rule: pad_loop.induct)
  case (1 cleaned years)
  show ?case
  proof (cases "int (length cleaned) < years")
    case True
    have n: "nat (years - int (length cleaned))
               = Suc (nat (years - int (length (cleaned @ [last cleaned]))))"
      using True by simp
    from "1.IH" [OF True] have
      "pad_loop (cleaned @ [last cleaned]) years
         = (cleaned @ [last cleaned])
           @ replicate (nat (years - int (length (cleaned @ [last cleaned])))) (last cleaned)"
      by simp
    then show ?thesis
      using True by (subst pad_loop.simps) (simp only: n if_True replicate_Suc append.simps append_assoc)
  next
    case False
    then show ?thesis by (subst pad_loop.simps) simp
  qed
qed

lemma clean_value_entry:
  "py_float parse v \<noteq> Inl OverflowError \<Longrightarrow> clean_value parse v = Inr (spec_entry parse v)"
  by (cases v) (auto simp: clean_value_def spec_entry_def split: option.splits)

lemma clean_value_overflow:
  "py_float parse v = Inl OverflowError \<Longrightarrow> clean_value parse v = Inl OverflowError"
  by (simp add: clean_value_def)

lemma clean_loop_entries:
  "\<forall>v \<in> set vs. py_float parse v \<noteq> Inl OverflowError \<Longrightarrow>
   clean_loop parse vs cleaned = Inr (cleaned @ map (spec_entry parse) vs)"
  by (induction vs arbitrary: cleaned) (simp_all add: clean_value_entry)

lemma clean_loop_overflow:
  "\<exists>v \<in> set vs. py_float parse v = Inl OverflowError \<Longrightarrow>
   clean_loop parse vs cleaned = Inl OverflowError"
proof (induction vs arbitrary: cleaned)
  case Nil
  then show ?case by simp
next
  case (Cons v vs)
  show ?case
  proof (cases "py_float parse v = Inl OverflowError")
    case True
    then show ?thesis by (simp add: clean_value_overflow)
  next
    case False
    with Cons.prems have "\<exists>v \<in> set vs. py_float parse v = Inl OverflowError" by auto
    from Cons.IH [OF this] False show ?thesis by (simp add: clean_value_entry)
  qed
qed

lemma normalize_list:
  assumes "vs \<noteq> []" and "\<forall>v \<in> set vs. py_float parse v \<noteq> Inl OverflowError"
  shows "normalize_growth_series parse (PList vs) years
     = Inr (slice_to (map (spec_entry parse) vs
                 @ replicate (nat (years - int (length vs))) (spec_entry parse (last vs))) years)"
proof -
  from assms(1) obtain v vs' where vs: "vs = v # vs'" by (cases vs) auto
  have "map (spec_entry parse) vs \<noteq> []" using assms(1) by simp
  from pad_loop_eq [OF this, of years] clean_loop_entries [OF assms(2), of "[]"] show ?thesis
    using assms(1) by (simp add: vs last_map)
qed

text \<open>
  Claim C5, as stated, fails for a horizon of 0 years: a scalar still gives one entry.
\<close>

theorem normalize_growth_series_zero_years:
  "normalize_growth_series Map.empty (PFloat (1 / 20)) 0 = Inr [1 / 20]
   \<and> length [1 / 20 :: real] \<noteq> nat 0"
  by simp

text \<open>
  Claim C5, amended. A float or a truth value expands to \<open>max(years, 1)\<close> equal
  entries, which is \<open>years\<close> entries for \<open>years \<ge> 1\<close>, and so does an integer within the
  range of a float; an integer beyond it raises \<^verbatim>\<open>OverflowError\<close>. For a non-empty list
  none of whose entries is such an integer: a list shorter than \<open>years\<close> is padded on the
  right with its last entry up to \<open>years\<close> entries; for \<open>years \<ge> 0\<close> a list of at least
  \<open>years\<close> entries is cut to its first \<open>years\<close> entries, and the result has \<open>years\<close>
  entries. An entry for which \<^verbatim>\<open>float\<close> raises \<^verbatim>\<open>TypeError\<close> or \<^verbatim>\<open>ValueError\<close> becomes 0,
  and an entry it converts becomes its number. A list with an integer entry beyond the
  range of a float raises \<^verbatim>\<open>OverflowError\<close>.
\<close>

theorem normalize_growth_series_shape:
  "normalize_growth_series parse (PFloat x) years = Inr (replicate (nat (max years 1)) x)
   \<and> normalize_growth_series parse (PBool b) years
       = Inr (replicate (nat (max years 1)) (if b then 1 else 0))
   \<and> (\<not> float_overflows (of_int i) \<longrightarrow>
        normalize_growth_series parse (PInt i) years
          = Inr (replicate (nat (max years 1)) (of_int i)))
   \<and> (float_overflows (of_int i) \<longrightarrow>
        normalize_growth_series parse (PInt i) years = Inl OverflowError)
   \<and> (1 \<le> years \<longrightarrow>
        normalize_growth_series parse (PFloat x) years = Inr (replicate (nat years) x))
   \<and> (vs \<noteq> [] \<and> (\<forall>v \<in> set vs. py_float parse v \<noteq> Inl OverflowError)
        \<and> int (length vs) < years \<longrightarrow>
        normalize_growth_series parse (PList vs) years
          = Inr (map (spec_entry parse) vs
                 @ replicate (nat years - length vs) (spec_entry parse (last vs))))
   \<and> (vs \<noteq> [] \<and> (\<forall>v \<in> set vs. py_float parse v \<noteq> Inl OverflowError)
        \<and> 0 \<le> years \<and> years \<le> int (length vs) \<longrightarrow>
        normalize_growth_series parse (PList vs) years
          = Inr (take (nat years) (map (spec_entry parse) vs)))
   \<and> (vs \<noteq> [] \<and> (\<forall>v \<in> set vs. py_float parse v \<noteq> Inl OverflowError)
        \<and> 0 \<le> years \<longrightarrow>
        (\<exists>xs. normalize_growth_series parse (PList vs) years = Inr xs
              \<and> length xs = nat years))
   \<and> ((\<exists>v \<in> set vs. py_float parse v = Inl OverflowError) \<longrightarrow>
        normalize_growth_series parse (PList vs) years = Inl OverflowError)
   \<and> (py_float parse v = Inl TypeError \<or> py_float parse v = Inl (ValueError m) \<longrightarrow>
        spec_entry parse v = 0 \<and> clean_value parse v = Inr 0)
   \<and> (py_float parse v = Inr y \<longrightarrow>
        spec_entry parse v = y \<and> clean_value parse v = Inr y)"
proof -
  let ?ok = "\<forall>v \<in> set vs. py_float parse v \<noteq> Inl OverflowError"
  have short: "normalize_growth_series parse (PList vs) years
          = Inr (map (spec_entry parse) vs
            @ replicate (nat years - length vs) (spec_entry parse (last vs)))"
    if "vs \<noteq> []" ?ok "int (length vs) < years"
  proof -
    have "nat (years - int (length vs)) = nat years - length vs" using that(3) by simp
    moreover have "nat years = length vs + (nat years - length vs)" using that(3) by simp
    ultimately show ?thesis
      using that by (simp add: normalize_list slice_to_def)
  qed
  have long: "normalize_growth_series parse (PList vs) years
          = Inr (take (nat years) (map (spec_entry parse) vs))"
    if "vs \<noteq> []" ?ok "0 \<le> years" "years \<le> int (length vs)"
    using that by (simp add: normalize_list slice_to_def)
  have len: "\<exists>xs. normalize_growth_series parse (PList vs) years = Inr xs
              \<and> length xs = nat years"
    if "vs \<noteq> []" ?ok "0 \<le> years"
    using that by (cases "int (length vs) < years") (auto simp: short long)
  have over: "normalize_growth_series parse (PList vs) years = Inl OverflowError"
    if "\<exists>v \<in> set vs. py_float parse v = Inl OverflowError"
  proof -
    from that obtain v vs' where vs: "vs = v # vs'" by (cases vs) auto
    from clean_loop_overflow [OF that, of "[]"] show ?thesis by (simp add: vs)
  qed
  have scalar: "normalize_growth_series parse (PFloat x) years
       = Inr (replicate (nat (max years 1)) x)"
    "normalize_growth_series parse (PBool b) years
       = Inr (replicate (nat (max years 1)) (if b then 1 else 0))"
    by simp_all
  have int_ok: "normalize_growth_series parse (PInt i) years
          = Inr (replicate (nat (max years 1)) (of_int i))"
    if "\<not> float_overflows (of_int i)"
    using that by simp
  have int_over: "normalize_growth_series parse (PInt i) years = Inl OverflowError"
    if "float_overflows (of_int i)"
    using that by simp
  have scalar1: "normalize_growth_series parse (PFloat x) years = Inr (replicate (nat years) x)"
    if "1 \<le> years"
    using that by (simp add: max_def)
  have bad: "spec_entry parse v = 0 \<and> clean_value parse v = Inr 0"
    if "py_float parse v = Inl TypeError \<or> py_float parse v = Inl (ValueError m)"
    using that by (auto simp: clean_value_def spec_entry_def)
  have good: "spec_entry parse v = y \<and> clean_value parse v = Inr y"
    if "py_float parse v = Inr y"
    using that by (simp add: clean_value_def spec_entry_def)
  show ?thesis
    using short long len over scalar int_ok int_over scalar1 bad good by blast
qed

theorem normalize_growth_series_shape_witness:
  "(1::int) \<le> 3
   \<and> normalize_growth_series Map.empty (PFloat (1 / 20)) 3 = Inr [1 / 20, 1 / 20, 1 / 20]
   \<and> \<not> float_overflows (of_int 2)
   \<and> normalize_growth_series Map.empty (PInt 2) 0 = Inr [2]
   \<and> float_overflows (of_int (10 ^ 400))
   \<and> normalize_growth_series Map.empty (PInt (10 ^ 400)) 3 = Inl OverflowError
   \<and> [PInt 1, PStr ''x''] \<noteq> [] \<and> int (length [PInt 1, PStr ''x'']) < 4
   \<and> normalize_growth_series Map.empty (PList [PInt 1, PStr ''x'']) 4 = Inr [1, 0, 0, 0]
   \<and> [PInt 1, PInt 2, PInt 3] \<noteq> [] \<and> (0::int) \<le> 2 \<and> 2 \<le> int (length [PInt 1, PInt 2, PInt 3])
   \<and> normalize_growth_series Map.empty (PList [PInt 1, PInt 2, PInt 3]) 2 = Inr [1, 2]
   \<and> py_float Map.empty (PInt (10 ^ 400)) = Inl OverflowError
   \<and> normalize_growth_series Map.empty (PList [PInt 1, PInt (10 ^ 400)]) 2 = Inl OverflowError
   \<and> py_float Map.empty (PStr ''x'') = Inl (ValueError ''could not convert string to float'')
   \<and> clean_value Map.empty (PStr ''x'') = Inr 0
   \<and> py_float Map.empty PNone = Inl TypeError
   \<and> clean_value Map.empty PNone = Inr 0
   \<and> py_float Map.empty (PInt 2) = Inr 2
   \<and> clean_value Map.empty (PInt 2) = Inr 2"
proof -
  let ?p = "Map.empty :: string \<Rightarrow> real option"
  have small: "\<not> float_overflows (of_int 1)" "\<not> float_overflows (of_int 2)"
    "\<not> float_overflows (of_int 3)"
    by (simp_all add: float_overflows_def)
  have big: "float_overflows (of_int (10 ^ 400))"
    by (simp add: float_overflows_def)
  have bad: "py_float ?p (PStr ''x'') = Inl (ValueError ''could not convert string to float'')"
    and none: "py_float ?p PNone = Inl TypeError"
    and f1: "py_float ?p (PInt 1) = Inr 1"
    and f2: "py_float ?p (PInt 2) = Inr 2"
    and f3: "py_float ?p (PInt 3) = Inr 3"
    and fbig: "py_float ?p (PInt (10 ^ 400)) = Inl OverflowError"
    using small big by simp_all
  have c0: "spec_entry ?p (PStr ''x'') = 0" "clean_value ?p (PStr ''x'') = Inr 0"
    using normalize_growth_series_shape [where parse = ?p and v = "PStr ''x''"
        and m = "''could not convert string to float''"] bad
    by simp_all
  have cn: "clean_value ?p PNone = Inr 0"
    using normalize_growth_series_shape [where parse = ?p and v = PNone] none by simp
  have c1: "spec_entry ?p (PInt 1) = 1"
    using normalize_growth_series_shape [where parse = ?p and v = "PInt 1" and y = 1] f1 by simp
  have c2: "spec_entry ?p (PInt 2) = 2" "clean_value ?p (PInt 2) = Inr 2"
    using normalize_growth_series_shape [where parse = ?p and v = "PInt 2" and y = 2] f2 by simp_all
  have c3: "spec_entry ?p (PInt 3) = 3"
    using normalize_growth_series_shape [where parse = ?p and v = "PInt 3" and y = 3] f3 by simp
  have scalar: "normalize_growth_series ?p (PFloat (1 / 20)) 3 = Inr [1 / 20, 1 / 20, 1 / 20]"
    using normalize_growth_series_shape [where parse = ?p and x = "1 / 20" and years = 3]
    by (simp add: numeral_3_eq_3)
  have int0: "normalize_growth_series ?p (PInt 2) 0 = Inr [2]"
    using normalize_growth_series_shape [where parse = ?p and i = 2 and years = 0] small(2) by simp
  have intbig: "normalize_growth_series ?p (PInt (10 ^ 400)) 3 = Inl OverflowError"
    using normalize_growth_series_shape [where parse = ?p and i = "10 ^ 400" and years = 3] big by blast
  have ok_short: "\<forall>v \<in> set [PInt 1, PStr ''x'']. py_float ?p v \<noteq> Inl OverflowError"
    using f1 bad by simp
  have short: "normalize_growth_series ?p (PList [PInt 1, PStr ''x'']) 4 = Inr [1, 0, 0, 0]"
    using normalize_growth_series_shape [where parse = ?p and years = 4 and vs = "[PInt 1, PStr ''x'']"] ok_short c0 c1
    by (simp add: numeral_eq_Suc)
  have ok_long: "\<forall>v \<in> set [PInt 1, PInt 2, PInt 3]. py_float ?p v \<noteq> Inl OverflowError"
    using f1 f2 f3 by simp
  have long: "normalize_growth_series ?p (PList [PInt 1, PInt 2, PInt 3]) 2 = Inr [1, 2]"
    using normalize_growth_series_shape [where parse = ?p and years = 2 and vs = "[PInt 1, PInt 2, PInt 3]"]
      ok_long c1 c2 c3
    by (simp add: numeral_2_eq_2)
  have "\<exists>v \<in> set [PInt 1, PInt (10 ^ 400)]. py_float ?p v = Inl OverflowError"
    using fbig by simp
  with normalize_growth_series_shape [where parse = ?p and years = 2 and vs = "[PInt 1, PInt (10 ^ 400)]"]
  have over: "normalize_growth_series ?p (PList [PInt 1, PInt (10 ^ 400)]) 2 = Inl OverflowError"
    by blast
  show ?thesis
    using scalar int0 intbig short long over bad none f2 fbig c0 cn c2 small(2) big by simp
qed

section \<open>Properties of the free-cash-flow history\<close>

lemma wf_df_row_length:
  "wf_df df \<Longrightarrow> map_of (df_index df) l = Some series \<Longrightarrow>
   length series = length (df_columns df)"
  by (auto simp: wf_df_def list_all_iff dest!: map_of_SomeD)

lemma fillna0_length: "length (fillna0 series) = length series"
  by (simp add: fillna0_def)

lemma fillna0_nth:
  "i < length series \<Longrightarrow> fillna0 series ! i = (case series ! i of None \<Rightarrow> 0 | Some x \<Rightarrow> x)"
  by (simp add: fillna0_def)

lemma row_values_loop_component:
  assumes "wf_df df" and "i < length (df_columns df)"
  shows "length (fst (row_values_loop df labels)) = length (df_columns df) \<and>
         fst (row_values_loop df labels) ! i = spec_component df labels i"
proof (induction labels)
  case Nil
  show ?case using assms(2) by (simp add: spec_component_def spec_first_label_def)
next
  case (Cons label labels)
  show ?case
  proof (cases "map_of (df_index df) label")
    case None
    then have "label \<notin> set (map fst (df_index df))"
      by (simp add: map_of_eq_None_iff)
    then have "spec_component df (label # labels) i = spec_component df labels i"
      by (simp add: spec_component_def spec_first_label_def)
    with None Cons.IH show ?thesis by simp
  next
    case (Some series)
    then have "label \<in> set (map fst (df_index df))"
      by (metis map_of_eq_None_iff option.distinct(1) set_map)
    then have "spec_component df (label # labels) i =
                 (case series ! i of None \<Rightarrow> 0 | Some x \<Rightarrow> x)"
      using Some by (simp add: spec_component_def spec_first_label_def)
    moreover have "length series = length (df_columns df)"
      using wf_df_row_length [OF assms(1) Some] .
    ultimately show ?thesis
      using Some assms(2) by (simp add: fillna0_length fillna0_nth)
  qed
qed

lemma row_values_loop_length:
  assumes "wf_df df"
  shows "length (fst (row_values_loop df labels)) = length (df_columns df)"
proof (induction labels)
  case Nil
  show ?case by simp
next
  case (Cons label labels)
  then show ?case
    using wf_df_row_length [OF assms]
    by (cases "map_of (df_index df) label") (simp_all add: fillna0_length)
qed

lemma row_values_free_cash_flow:
  "\<not> df_empty df \<Longrightarrow>
   row_values df [''Free Cash Flow'']
     = (case map_of (df_index df) ''Free Cash Flow'' of
          None \<Rightarrow> (map (\<lambda>_. 0) (df_columns df), False)
        | Some series \<Rightarrow> (fillna0 series, True))"
  by (simp add: row_values_def split: option.splits)

text \<open>
  Claim C8. For a well-formed cash-flow table: an empty table gives the empty history; a
  table with a \<^verbatim>\<open>Free Cash Flow\<close> row that has a value of absolute value above
  \<open>10\<^sup>-\<^sup>9\<close> gives that row; otherwise the history has one entry per period, the
  operating cash flow minus the capital expenditure of the period, each taken from the
  first candidate label present and counted as 0 where none is.
\<close>

theorem compute_fcf_series_cases:
  assumes "wf_df cashflow"
  shows "(df_empty cashflow \<longrightarrow> compute_fcf_series cashflow = [])
   \<and> (\<not> df_empty cashflow
        \<and> map_of (df_index cashflow) ''Free Cash Flow'' = Some series
        \<and> list_ex (\<lambda>x. \<bar>x\<bar> > 1 / 1000000000) (fillna0 series)
      \<longrightarrow> compute_fcf_series cashflow = fillna0 series)
   \<and> (\<not> df_empty cashflow
        \<and> (map_of (df_index cashflow) ''Free Cash Flow'' = None
           \<or> map_of (df_index cashflow) ''Free Cash Flow'' = Some series
             \<and> \<not> list_ex (\<lambda>x. \<bar>x\<bar> > 1 / 1000000000) (fillna0 series))
      \<longrightarrow> length (compute_fcf_series cashflow) = length (df_columns cashflow)
          \<and> (\<forall>i < length (df_columns cashflow).
                compute_fcf_series cashflow ! i
                  = spec_component cashflow operating_labels i
                    - spec_component cashflow capex_labels i))"
proof -
  have empty: "compute_fcf_series cashflow = []" if "df_empty cashflow"
    using that by (simp add: compute_fcf_series_def)
  have literal: "compute_fcf_series cashflow = fillna0 series"
    if "\<not> df_empty cashflow" "map_of (df_index cashflow) ''Free Cash Flow'' = Some series"
       "list_ex (\<lambda>x. \<bar>x\<bar> > 1 / 1000000000) (fillna0 series)"
    using that by (simp add: compute_fcf_series_def row_values_free_cash_flow)
  have derived: "length (compute_fcf_series cashflow) = length (df_columns cashflow)
          \<and> (\<forall>i < length (df_columns cashflow).
                compute_fcf_series cashflow ! i
                  = spec_component cashflow operating_labels i
                    - spec_component cashflow capex_labels i)"
    if ne: "\<not> df_empty cashflow"
      and fcf: "map_of (df_index cashflow) ''Free Cash Flow'' = None
           \<or> map_of (df_index cashflow) ''Free Cash Flow'' = Some series
             \<and> \<not> list_ex (\<lambda>x. \<bar>x\<bar> > 1 / 1000000000) (fillna0 series)"
  proof -
    let ?ops = "fst (row_values_loop cashflow operating_labels)"
    let ?caps = "fst (row_values_loop cashflow capex_labels)"
    have eq: "compute_fcf_series cashflow = map (\<lambda>(op, cap). op - cap) (zip ?ops ?caps)"
      using ne fcf
      by (auto simp: compute_fcf_series_def row_values_free_cash_flow row_values_def
          split: prod.splits)
    have len: "length ?ops = length (df_columns cashflow)" "length ?caps = length (df_columns cashflow)"
      using row_values_loop_length [OF assms] by simp_all
    have "compute_fcf_series cashflow ! i
            = spec_component cashflow operating_labels i - spec_component cashflow capex_labels i"
      if "i < length (df_columns cashflow)" for i
      using row_values_loop_component [OF assms that] len that by (simp add: eq)
    then show ?thesis by (simp add: eq len)
  qed
  show ?thesis using empty literal derived by blast
qed

theorem compute_fcf_series_cases_witness:
  "wf_df \<lparr>df_columns = [], df_index = []\<rparr>
   \<and> df_empty \<lparr>df_columns = [], df_index = []\<rparr>
   \<and> compute_fcf_series \<lparr>df_columns = [], df_index = []\<rparr> = []
   \<and> wf_df \<lparr>df_columns = [''2023'', ''2022''],
             df_index = [(''Free Cash Flow'', [Some 5, None]),
                         (''Operating Cash Flow'', [Some 9, Some 8])]\<rparr>
   \<and> compute_fcf_series
        \<lparr>df_columns = [''2023'', ''2022''],
         df_index = [(''Free Cash Flow'', [Some 5, None]),
                     (''Operating Cash Flow'', [Some 9, Some 8])]\<rparr> = [5, 0]
   \<and> wf_df \<lparr>df_columns = [''2023'', ''2022''],
             df_index = [(''Free Cash Flow'', [Some 0, None]),
                         (''Total Cash From Operating Activities'', [Some 9, Some 8])]\<rparr>
   \<and> compute_fcf_series
        \<lparr>df_columns = [''2023'', ''2022''],
         df_index = [(''Free Cash Flow'', [Some 0, None]),
                     (''Total Cash From Operating Activities'', [Some 9, Some 8])]\<rparr> = [9, 8]
   \<and> wf_df \<lparr>df_columns = [''2023'', ''2022''],
             df_index = [(''Capital Expenditures'', [Some (- 2), Some (- 3)]),
                         (''Operating Cash Flow'', [Some 9, Some 8])]\<rparr>
   \<and> compute_fcf_series
        \<lparr>df_columns = [''2023'', ''2022''],
         df_index = [(''Capital Expenditures'', [Some (- 2), Some (- 3)]),
                     (''Operating Cash Flow'', [Some 9, Some 8])]\<rparr> = [11, 11]"
proof -
  let ?e = "\<lparr>df_columns = [], df_index = []\<rparr>"
  let ?a = "\<lparr>df_columns = [''2023'', ''2022''],
             df_index = [(''Free Cash Flow'', [Some 5, None]),
                         (''Operating Cash Flow'', [Some 9, Some (8::real)])]\<rparr>"
  let ?b = "\<lparr>df_columns = [''2023'', ''2022''],
             df_index = [(''Free Cash Flow'', [Some 0, None]),
                         (''Total Cash From Operating Activities'', [Some 9, Some (8::real)])]\<rparr>"
  let ?c = "\<lparr>df_columns = [''2023'', ''2022''],
             df_index = [(''Capital Expenditures'', [Some (- 2), Some (- 3)]),
                         (''Operating Cash Flow'', [Some 9, Some (8::real)])]\<rparr>"
  have wf: "wf_df ?e" "wf_df ?a" "wf_df ?b" "wf_df ?c"
    by (simp_all add: wf_df_def)
  have e: "compute_fcf_series ?e = []"
    using compute_fcf_series_cases [OF wf(1)] by (simp add: df_empty_def)
  have a: "compute_fcf_series ?a = [5, 0]"
    using compute_fcf_series_cases [OF wf(2), of "[Some 5, None]"] by (simp add: df_empty_def fillna0_def)
  have nth2: "xs = [xs ! 0, xs ! 1]" if "length xs = 2" for xs :: "real list"
    using that by (cases xs; cases "tl xs") auto
  have comp_b: "spec_component ?b operating_labels 0 = 9" "spec_component ?b operating_labels 1 = 8"
    "spec_component ?b capex_labels 0 = 0" "spec_component ?b capex_labels 1 = 0"
    by (simp_all add: spec_component_def spec_first_label_def operating_labels_def capex_labels_def)
  have comp_c: "spec_component ?c operating_labels 0 = 9" "spec_component ?c operating_labels 1 = 8"
    "spec_component ?c capex_labels 0 = - 2" "spec_component ?c capex_labels 1 = - 3"
    by (simp_all add: spec_component_def spec_first_label_def operating_labels_def capex_labels_def)
  have "length (compute_fcf_series ?b) = 2 \<and> compute_fcf_series ?b ! 0 = 9
      \<and> compute_fcf_series ?b ! 1 = 8"
    using compute_fcf_series_cases [OF wf(3), of "[Some 0, None]"] comp_b
    by (simp add: df_empty_def fillna0_def)
  then have b: "compute_fcf_series ?b = [9, 8]"
    using nth2 [of "compute_fcf_series ?b"] by simp
  have "length (compute_fcf_series ?c) = 2 \<and> compute_fcf_series ?c ! 0 = 11
      \<and> compute_fcf_series ?c ! 1 = 11"
    using compute_fcf_series_cases [OF wf(4), of "[]"] comp_c
    by (simp add: df_empty_def)
  then have c: "compute_fcf_series ?c = [11, 11]"
    using nth2 [of "compute_fcf_series ?c"] by simp
  show ?thesis
    using wf e a b c by (simp add: df_empty_def)
qed

section \<open>Properties of the snapshot cache\<close>

lemma get_snapshot_hit:
  assumes "py_upper (py_strip tk) \<noteq> []"
    and "cache self (py_upper (py_strip tk)) = Some cached"
    and "now - timestamp cached < of_int (cache_ttl self)"
  shows "get_snapshot upstream now now_stored (self, w) tk = (Inr (payload cached), self, w)"
  using assms by (simp add: get_snapshot_def Let_def)

lemma get_snapshot_fetch:
  assumes "py_upper (py_strip tk) \<noteq> []"
    and "cache self (py_upper (py_strip tk)) = None
         \<or> cache self (py_upper (py_strip tk)) = Some cached
           \<and> \<not> now - timestamp cached < of_int (cache_ttl self)"
  shows "get_snapshot upstream now now_stored (self, w) tk =
     (case upstream w (py_upper (py_strip tk)) of
        (Inl e, w') \<Rightarrow> (Inl e, self, w')
      | (Inr snapshot, w') \<Rightarrow>
          (Inr snapshot,
           self\<lparr>cache := (cache self)
              (py_upper (py_strip tk) \<mapsto> \<lparr>payload = snapshot, timestamp = now_stored\<rparr>)\<rparr>,
           w'))"
  using assms by (auto simp: get_snapshot_def Let_def)

lemma get_snapshot_success:
  assumes "get_snapshot upstream now now_stored (self, w) tk = (Inr snap, self', w')"
  shows "py_upper (py_strip tk) \<noteq> [] \<and> cache_ttl self' = cache_ttl self \<and>
         (\<exists>ts. cache self' (py_upper (py_strip tk)) = Some \<lparr>payload = snap, timestamp = ts\<rparr>)"
proof -
  let ?n = "py_upper (py_strip tk)"
  have ne: "?n \<noteq> []"
    using assms by (auto simp: get_snapshot_def Let_def)
  show ?thesis
  proof (cases "\<exists>cached. cache self ?n = Some cached
                  \<and> now - timestamp cached < of_int (cache_ttl self)")
    case True
    then obtain cached where c: "cache self ?n = Some cached"
      "now - timestamp cached < of_int (cache_ttl self)" by blast
    from get_snapshot_hit [OF ne c, of upstream now_stored w] assms
    have "snap = payload cached" "self' = self" by simp_all
    with c ne show ?thesis by (cases cached) auto
  next
    case False
    then have "cache self ?n = None
         \<or> cache self ?n = Some (the (cache self ?n))
           \<and> \<not> now - timestamp (the (cache self ?n)) < of_int (cache_ttl self)"
      by (cases "cache self ?n") auto
    from get_snapshot_fetch [OF ne this, of upstream now_stored w] assms
    show ?thesis using ne
      by (auto split: prod.splits sum.splits)
  qed
qed

text \<open>
  Claim C7. After a call of \<^verbatim>\<open>get_snapshot\<close> that returned a snapshot, the normalized
  ticker is not empty and the cache holds that snapshot with some timestamp \<open>ts\<close>. A
  later call for a ticker with the same normalized form, reading the clock at \<open>t2\<close>,
  returns the same snapshot and leaves the provider and the outside world as they were
  when \<open>t2 - ts\<close> is below the time to live; otherwise it asks the upstream service
  again, returns its answer and stores a snapshot it answers with under the new
  timestamp.
\<close>

theorem get_snapshot_cache_window:
  assumes "get_snapshot upstream t1 t1' (self, w) tk = (Inr snap, self1, w1)"
    and "py_upper (py_strip tk') = py_upper (py_strip tk)"
  shows "py_upper (py_strip tk) \<noteq> []
     \<and> (\<exists>ts. cache self1 (py_upper (py_strip tk)) = Some \<lparr>payload = snap, timestamp = ts\<rparr>
          \<and> (t2 - ts < of_int (cache_ttl self1) \<longrightarrow>
                get_snapshot upstream t2 t2' (self1, w1) tk' = (Inr snap, self1, w1))
          \<and> (\<not> t2 - ts < of_int (cache_ttl self1) \<longrightarrow>
                get_snapshot upstream t2 t2' (self1, w1) tk' =
                  (case upstream w1 (py_upper (py_strip tk)) of
                     (Inl e, w2) \<Rightarrow> (Inl e, self1, w2)
                   | (Inr fresh, w2) \<Rightarrow>
                       (Inr fresh,
                        self1\<lparr>cache := (cache self1)
                           (py_upper (py_strip tk) \<mapsto> \<lparr>payload = fresh, timestamp = t2'\<rparr>)\<rparr>,
                        w2))))"
proof -
  let ?n = "py_upper (py_strip tk)"
  from get_snapshot_success [OF assms(1)] obtain ts where
    ne: "?n \<noteq> []" and c: "cache self1 ?n = Some \<lparr>payload = snap, timestamp = ts\<rparr>"
    by blast
  have ne': "py_upper (py_strip tk') \<noteq> []" and
    c': "cache self1 (py_upper (py_strip tk')) = Some \<lparr>payload = snap, timestamp = ts\<rparr>"
    using ne c assms(2) by simp_all
  have hit: "get_snapshot upstream t2 t2' (self1, w1) tk' = (Inr snap, self1, w1)"
    if "t2 - ts < of_int (cache_ttl self1)"
    using get_snapshot_hit [OF ne' c', of t2 upstream t2' w1] that by simp
  have stale: "get_snapshot upstream t2 t2' (self1, w1) tk' =
                  (case upstream w1 ?n of
                     (Inl e, w2) \<Rightarrow> (Inl e, self1, w2)
                   | (Inr fresh, w2) \<Rightarrow>
                       (Inr fresh,
                        self1\<lparr>cache := (cache self1)
                           (?n \<mapsto> \<lparr>payload = fresh, timestamp = t2'\<rparr>)\<rparr>,
                        w2))"
    if "\<not> t2 - ts < of_int (cache_ttl self1)"
  proof -
    have "cache self1 (py_upper (py_strip tk')) = None
         \<or> cache self1 (py_upper (py_strip tk')) = Some \<lparr>payload = snap, timestamp = ts\<rparr>
           \<and> \<not> t2 - timestamp \<lparr>payload = snap, timestamp = ts\<rparr> < of_int (cache_ttl self1)"
      using c' that by simp
    from get_snapshot_fetch [OF ne' this, of upstream t2' w1] show ?thesis
      unfolding assms(2) .
  qed
  show ?thesis using ne c hit stale by blast
qed

theorem get_snapshot_cache_window_witness:
  "\<exists>self1.
     get_snapshot
       (\<lambda>w n. (Inr \<lparr>ticker = n, currency = ''USD'', financial_currency = ''USD'',
                     shares_outstanding = 100, current_price = real w, fcf_history = [],
                     owner_earnings_history = [], dividends_per_share_ttm = 0,
                     metadata = [], warnings = []\<rparr>, Suc w))
       0 1 (YahooFinanceDataProvider_init 1800, 0) '' aapl ''
       = (Inr \<lparr>ticker = ''AAPL'', currency = ''USD'', financial_currency = ''USD'',
                shares_outstanding = 100, current_price = 0, fcf_history = [],
                owner_earnings_history = [], dividends_per_share_ttm = 0,
                metadata = [], warnings = []\<rparr>, self1, Suc 0)
     \<and> py_upper (py_strip ''AAPL'') = py_upper (py_strip '' aapl '')
     \<and> cache self1 ''AAPL''
         = Some \<lparr>payload = \<lparr>ticker = ''AAPL'', currency = ''USD'', financial_currency = ''USD'',
                shares_outstanding = 100, current_price = 0, fcf_history = [],
                owner_earnings_history = [], dividends_per_share_ttm = 0,
                metadata = [], warnings = []\<rparr>, timestamp = 1\<rparr>
     \<and> 1000 - 1 < (of_int (cache_ttl self1) :: real)
     \<and> get_snapshot
       (\<lambda>w n. (Inr \<lparr>ticker = n, currency = ''USD'', financial_currency = ''USD'',
                     shares_outstanding = 100, current_price = real w, fcf_history = [],
                     owner_earnings_history = [], dividends_per_share_ttm = 0,
                     metadata = [], warnings = []\<rparr>, Suc w))
       1000 1001 (self1, Suc 0) ''AAPL''
       = (Inr \<lparr>ticker = ''AAPL'', currency = ''USD'', financial_currency = ''USD'',
                shares_outstanding = 100, current_price = 0, fcf_history = [],
                owner_earnings_history = [], dividends_per_share_ttm = 0,
                metadata = [], warnings = []\<rparr>, self1, Suc 0)
     \<and> \<not> 2000 - 1 < (of_int (cache_ttl self1) :: real)
     \<and> get_snapshot
       (\<lambda>w n. (Inr \<lparr>ticker = n, currency = ''USD'', financial_currency = ''USD'',
                     shares_outstanding = 100, current_price = real w, fcf_history = [],
                     owner_earnings_history = [], dividends_per_share_ttm = 0,
                     metadata = [], warnings = []\<rparr>, Suc w))
       2000 2001 (self1, Suc 0) ''AAPL''
       = (Inr \<lparr>ticker = ''AAPL'', currency = ''USD'', financial_currency = ''USD'',
                shares_outstanding = 100, current_price = 1, fcf_history = [],
                owner_earnings_history = [], dividends_per_share_ttm = 0,
                metadata = [], warnings = []\<rparr>,
          self1\<lparr>cache := (cache self1)(''AAPL'' \<mapsto>
             \<lparr>payload = \<lparr>ticker = ''AAPL'', currency = ''USD'', financial_currency = ''USD'',
                shares_outstanding = 100, current_price = 1, fcf_history = [],
                owner_earnings_history = [], dividends_per_share_ttm = 0,
                metadata = [], warnings = []\<rparr>, timestamp = 2001\<rparr>)\<rparr>,
          Suc (Suc 0))"
proof -
  let ?up = "\<lambda>(w::nat) n. (Inr \<lparr>ticker = n, currency = ''USD'', financial_currency = ''USD'',
                     shares_outstanding = 100, current_price = real w, fcf_history = [],
                     owner_earnings_history = [], dividends_per_share_ttm = 0,
                     metadata = [], warnings = []\<rparr> :: error + FinancialSnapshot, Suc w)"
  let ?s0 = "\<lparr>ticker = ''AAPL'', currency = ''USD'', financial_currency = ''USD'',
                shares_outstanding = 100, current_price = 0, fcf_history = [],
                owner_earnings_history = [], dividends_per_share_ttm = 0,
                metadata = [], warnings = []\<rparr>"
  let ?p1 = "\<lparr>cache_ttl = 1800, cache = [''AAPL'' \<mapsto> \<lparr>payload = ?s0, timestamp = 1\<rparr>]\<rparr>"
  have n1: "py_upper (py_strip '' aapl '') = ''AAPL''"
    and n2: "py_upper (py_strip ''AAPL'') = ''AAPL''"
    by (simp_all add: py_upper_def py_strip_def is_space_def upper_char_def)
  have first: "get_snapshot ?up 0 1 (YahooFinanceDataProvider_init 1800, 0) '' aapl ''
                 = (Inr ?s0, ?p1, Suc 0)"
    by (simp add: get_snapshot_def n1 YahooFinanceDataProvider_init_def Let_def)
  have same: "py_upper (py_strip ''AAPL'') = py_upper (py_strip '' aapl '')"
    by (simp add: n1 n2)
  from get_snapshot_cache_window [OF first same, of 1000 1001] get_snapshot_cache_window [OF first same, of 2000 2001]
  have "get_snapshot ?up 1000 1001 (?p1, Suc 0) ''AAPL'' = (Inr ?s0, ?p1, Suc 0)"
    and "get_snapshot ?up 2000 2001 (?p1, Suc 0) ''AAPL''
      = (Inr (?s0\<lparr>current_price := 1\<rparr>),
         ?p1\<lparr>cache := (cache ?p1)(''AAPL'' \<mapsto>
             \<lparr>payload = ?s0\<lparr>current_price := 1\<rparr>, timestamp = 2001\<rparr>)\<rparr>, Suc (Suc 0))"
    by (simp_all add: n1)
  with first same show ?thesis
    by (intro exI [of _ ?p1]) (simp add: n1 n2)
qed

end
